theory Spec2Isabelle
  imports Main "HOL-Library.Word" "HOL-Library.Sublist"
begin

section \<open>The watch engine of etcdcpp\<close>

text \<open>
  A shallow embedding of \<^verbatim>\<open>include/watch.hpp\<close> (\<^verbatim>\<open>Watch::Run\<close>,
  \<^verbatim>\<open>Watch::RunOnce\<close>) over the part of \<^verbatim>\<open>include/internal/curl.hpp\<close>
  the watch uses (\<^verbatim>\<open>Curl::Get\<close>, \<^verbatim>\<open>Curl::EnableHeader\<close>,
  \<^verbatim>\<open>Curl::GetHeader\<close>). Exceptions are values, the objects are records that
  are passed along, the network and the template and function arguments of the
  watch (the \<^verbatim>\<open>Reply\<close> type, the callback) are parameters.
\<close>

subsection \<open>Exceptions\<close>

text \<open>
  What a \<^verbatim>\<open>try\<close> block of the watch can see thrown, by the handler that takes it:
  \<^item> \<open>ReplyException error_code what\<close>: taken by \<^verbatim>\<open>catch (const ReplyException& e)\<close>,
    which comes first in both functions;
  \<^item> \<open>StdException what\<close>: any other exception derived from \<^verbatim>\<open>std::exception\<close>
    (the \<^verbatim>\<open>CurlException\<close> of \<^verbatim>\<open>curl.hpp\<close>, the \<^verbatim>\<open>std::invalid_argument\<close> and
    \<^verbatim>\<open>std::out_of_range\<close> of \<^verbatim>\<open>std::stoi\<close>), taken by
    \<^verbatim>\<open>catch (const std::exception& e)\<close>;
  \<^item> \<open>NonStdException\<close>: a thrown object of any other type, taken only by
    \<^verbatim>\<open>catch (...)\<close>.
\<close>

datatype exn =
    ReplyException int string
  | StdException string
  | NonStdException

text \<open>
  \<^verbatim>\<open>ReplyException\<close> is declared in \<^verbatim>\<open>client.hpp\<close>, which is not among the sources;
  it is taken to derive from \<^verbatim>\<open>std::runtime_error\<close> as the exceptions of
  \<^verbatim>\<open>curl.hpp\<close> do. The handlers below never depend on it: they match in the order
  the source lists them, and the \<^verbatim>\<open>ReplyException\<close> handler is first.
\<close>

fun derived_from_std_exception :: "exn \<Rightarrow> bool" where
  "derived_from_std_exception (ReplyException c m) = True"
| "derived_from_std_exception (StdException m) = True"
| "derived_from_std_exception NonStdException = False"

text \<open>How a call of \<^verbatim>\<open>Run\<close> or \<^verbatim>\<open>RunOnce\<close> ends.\<close>

datatype thrown = ClientException string | Propagated exn

datatype outcome = Returns | Throws thrown

subsection \<open>Strings: \<^verbatim>\<open>std::to_string\<close>, \<^verbatim>\<open>std::getline\<close>, \<^verbatim>\<open>find\<close>, \<^verbatim>\<open>substr\<close>, \<^verbatim>\<open>std::stoi\<close>\<close>

definition digit_char :: "nat \<Rightarrow> char" where
  "digit_char d = ''0123456789'' ! d"

fun to_string :: "nat \<Rightarrow> string" where
  "to_string n =
     (if n < 10 then [digit_char n] else to_string (n div 10) @ [digit_char (n mod 10)])"

declare to_string.simps [simp del]

text \<open>
  The lines \<^verbatim>\<open>while (std::getline(stream, line))\<close> yields: the text is cut at each
  newline, and a last line without its newline is still a line; the carriage return
  of an HTTP header line stays in the line.
\<close>

fun getlines_from :: "string \<Rightarrow> string \<Rightarrow> string list" where
  "getlines_from cur [] = (if cur = [] then [] else [cur])"
| "getlines_from cur (c # cs) =
     (if c = CHR 0x0A then cur # getlines_from [] cs else getlines_from (cur @ [c]) cs)"

definition getlines :: "string \<Rightarrow> string list" where
  "getlines s = getlines_from [] s"

text \<open>\<^verbatim>\<open>line.find(label)\<close>: the first position where the label starts, \<open>None\<close> for \<^verbatim>\<open>npos\<close>.\<close>

fun find_str :: "string \<Rightarrow> string \<Rightarrow> nat option" where
  "find_str [] lab = (if lab = [] then Some 0 else None)"
| "find_str (c # cs) lab =
     (if prefix lab (c # cs) then Some 0 else map_option Suc (find_str cs lab))"

text \<open>\<^verbatim>\<open>line.substr(k)\<close> throws \<^verbatim>\<open>std::out_of_range\<close> when \<open>k\<close> is past the end.\<close>

definition substr :: "string \<Rightarrow> nat \<Rightarrow> exn + string" where
  "substr s k =
     (if length s < k then Inl (StdException ''basic_string::substr'') else Inr (drop k s))"

definition isspace :: "char \<Rightarrow> bool" where
  "isspace c = (c = CHR '' '' \<or> (9 \<le> (of_char c :: nat) \<and> (of_char c :: nat) \<le> 13))"

definition isdigit :: "char \<Rightarrow> bool" where
  "isdigit c = (48 \<le> (of_char c :: nat) \<and> (of_char c :: nat) \<le> 57)"

fun decimal :: "nat \<Rightarrow> string \<Rightarrow> nat" where
  "decimal acc [] = acc"
| "decimal acc (c # cs) = decimal (10 * acc + (of_char c - 48)) cs"

text \<open>
  \<^verbatim>\<open>std::stoi(s)\<close>: \<^verbatim>\<open>strtol\<close> in base 10 skips leading white space, reads an optional
  sign and the longest run of digits, and ignores what follows;
  \<^verbatim>\<open>std::invalid_argument\<close> when there is no digit, \<^verbatim>\<open>std::out_of_range\<close>
  when the value is not an \<^verbatim>\<open>int\<close> (32 bits).
\<close>

definition stoi :: "string \<Rightarrow> exn + int" where
  "stoi s =
     (let t = dropWhile isspace s;
          neg = (t \<noteq> [] \<and> hd t = CHR ''-'');
          u = (if t \<noteq> [] \<and> (hd t = CHR ''-'' \<or> hd t = CHR ''+'') then tl t else t);
          ds = takeWhile isdigit u;
          v = (if neg then - int (decimal 0 ds) else int (decimal 0 ds))
      in if ds = [] then Inl (StdException ''stoi'')
         else if v < - (2 ^ 31) \<or> 2 ^ 31 - 1 < v then Inl (StdException ''stoi'')
         else Inr v)"

subsection \<open>The transport: \<^verbatim>\<open>internal::Curl\<close>\<close>

text \<open>
  The members of \<^verbatim>\<open>Curl\<close> the watch can observe, and \<open>performed\<close>, the URLs
  of the calls of \<^verbatim>\<open>Get\<close> so far, oldest first (a ghost field: the requests made).
  A field is named as the member of the source without its last underscore, which a
  record field cannot end with.
\<close>

record curl =
  enable_header :: bool
  write_stream :: string
  header_stream :: string
  performed :: "string list"

text \<open>
  What the network does with one request: \<open>resp_error\<close> is \<open>None\<close> when every
  libcurl call of \<^verbatim>\<open>Get\<close> returns \<^verbatim>\<open>CURLE_OK\<close>, and otherwise the \<^verbatim>\<open>what()\<close> of the
  \<^verbatim>\<open>CurlException\<close> that \<^verbatim>\<open>_CheckError\<close> throws; \<open>resp_body\<close> and \<open>resp_headers\<close> are
  what libcurl hands to \<^verbatim>\<open>WriteCb\<close> and \<^verbatim>\<open>HeaderCb\<close>.
\<close>

datatype response = Response (resp_error: "string option") (resp_body: string) (resp_headers: string)

text \<open>
  \<^verbatim>\<open>Curl::Get\<close>: \<^verbatim>\<open>_SetCommonOptions\<close> clears the write stream, and clears the
  header stream and installs \<^verbatim>\<open>HeaderCb\<close> only when \<^verbatim>\<open>enable_header_\<close> is set
  (\<^verbatim>\<open>curl_easy_reset\<close> has dropped the callback of an earlier call);
  \<^verbatim>\<open>curl_easy_perform\<close> fills the streams; \<^verbatim>\<open>_CheckError\<close> throws, or the write
  stream is returned. The network is a function of the number of requests made so far,
  and a call of \<^verbatim>\<open>Get\<close> counts as a request also when it throws.
\<close>

definition Curl_Get :: "(nat \<Rightarrow> response) \<Rightarrow> curl \<Rightarrow> string \<Rightarrow> (exn + string) \<times> curl" where
  "Curl_Get net c url =
     (let r = net (length (performed c));
          c1 = c\<lparr>write_stream := resp_body r,
                 header_stream := (if enable_header c then resp_headers r else header_stream c),
                 performed := performed c @ [url]\<rparr>
      in (case resp_error r of
            Some m \<Rightarrow> (Inl (StdException m), c1)
          | None \<Rightarrow> (Inr (write_stream c1), c1)))"

definition Curl_EnableHeader :: "bool \<Rightarrow> curl \<Rightarrow> curl" where
  "Curl_EnableHeader onOff c = c\<lparr>enable_header := onOff\<rparr>"

definition Curl_GetHeader :: "curl \<Rightarrow> string" where
  "Curl_GetHeader c = header_stream c"

subsection \<open>The watch object and its collaborators\<close>

text \<open>
  \<^verbatim>\<open>Index\<close> is declared in \<^verbatim>\<open>client.hpp\<close>, which is not among the sources; the
  spec calls it an unsigned integer. It is a word of any width \<open>'w\<close> here, so
  \<^verbatim>\<open>prev_index_ + 1\<close> wraps around as unsigned arithmetic does.
\<close>

record (overloaded) 'w watch =
  prev_index :: "'w word"
  url_prefix :: string
  handle :: curl

text \<open>
  The parameters of a call: the constructor of the template argument \<^verbatim>\<open>Reply\<close>
  (it decodes a body or throws), its \<^verbatim>\<open>get_modified_index\<close>, the callback (a
  \<^verbatim>\<open>std::function\<close>, with the state \<open>'c\<close> it captures; \<open>None\<close> when it returns,
  \<open>Some e\<close> when it throws \<open>e\<close>), and the network.
\<close>

record (overloaded) ('w, 'r, 'c) world =
  Reply :: "string \<Rightarrow> exn + 'r"
  get_modified_index :: "'r \<Rightarrow> exn + 'w word"
  callback :: "'c \<Rightarrow> 'r \<Rightarrow> exn option \<times> 'c"
  network :: "nat \<Rightarrow> response"

text \<open>
  The state of a running call: the watch object (\<^verbatim>\<open>this\<close>), the local
  \<^verbatim>\<open>watch_url\<close>, the state of the callback, and \<open>calls\<close>, the replies the callback
  has been invoked with, oldest first (a ghost field).
\<close>

record (overloaded) ('w, 'r, 'c) frame =
  engine :: "'w watch"
  watch_url :: string
  user :: 'c
  calls :: "'r list"

definition MAX_FAILURES :: int where
  "MAX_FAILURES = 5"

definition etcd_index_label :: string where
  "etcd_index_label = ''X-Etcd-Index: ''"

text \<open>\<^verbatim>\<open>handle_->Get(url)\<close>, \<^verbatim>\<open>handle_->EnableHeader(onOff)\<close> and \<^verbatim>\<open>callback(r)\<close> on a frame.\<close>

definition handle_Get ::
  "('w::len, 'r, 'c) world \<Rightarrow> string \<Rightarrow> ('w, 'r, 'c) frame \<Rightarrow> (exn + string) \<times> ('w, 'r, 'c) frame" where
  "handle_Get E url f =
     (case Curl_Get (network E) (handle (engine f)) url of
        (res, h) \<Rightarrow> (res, f\<lparr>engine := (engine f)\<lparr>handle := h\<rparr>\<rparr>))"

definition handle_EnableHeader :: "bool \<Rightarrow> ('w::len, 'r, 'c) frame \<Rightarrow> ('w, 'r, 'c) frame" where
  "handle_EnableHeader onOff f =
     f\<lparr>engine := (engine f)\<lparr>handle := Curl_EnableHeader onOff (handle (engine f))\<rparr>\<rparr>"

definition invoke ::
  "('w::len, 'r, 'c) world \<Rightarrow> 'r \<Rightarrow> ('w, 'r, 'c) frame \<Rightarrow> exn option \<times> ('w, 'r, 'c) frame" where
  "invoke E r f =
     (case callback E (user f) r of
        (e, u) \<Rightarrow> (e, f\<lparr>user := u, calls := calls f @ [r]\<rparr>))"

definition set_prev_index :: "'w word \<Rightarrow> ('w::len, 'r, 'c) frame \<Rightarrow> ('w, 'r, 'c) frame" where
  "set_prev_index i f = f\<lparr>engine := (engine f)\<lparr>prev_index := i\<rparr>\<rparr>"

text \<open>\<^verbatim>\<open>watch_url = wait_url_base + std::to_string(prev_index_ + 1)\<close>, the base as \<open>base\<close>.\<close>

definition rewatch :: "string \<Rightarrow> ('w::len, 'r, 'c) frame \<Rightarrow> ('w, 'r, 'c) frame" where
  "rewatch base f =
     f\<lparr>watch_url := base @ to_string (unat (prev_index (engine f) + 1))\<rparr>"

subsection \<open>Entry of \<^verbatim>\<open>Run\<close> and \<^verbatim>\<open>RunOnce\<close>\<close>

text \<open>
  Lines 100 to 110 of \<^verbatim>\<open>Run\<close>, the same text as lines 178 to 188 of
  \<^verbatim>\<open>RunOnce\<close>: the watch object and the first \<^verbatim>\<open>watch_url\<close>.
\<close>

definition watch_url_base :: "'w::len watch \<Rightarrow> string \<Rightarrow> string" where
  "watch_url_base w key = url_prefix w @ key @ ''?wait=true''"

definition wait_url_base :: "'w::len watch \<Rightarrow> string \<Rightarrow> string" where
  "wait_url_base w key = watch_url_base w key @ ''&waitIndex=''"

definition enter :: "string \<Rightarrow> 'w::len word \<Rightarrow> 'w watch \<Rightarrow> 'w watch \<times> string" where
  "enter key prevIndex w =
     (let url = watch_url_base w key
      in if prevIndex \<noteq> 0 then
           (let w1 = w\<lparr>prev_index := prevIndex\<rparr>
            in (w1, url @ to_string (unat (prev_index w1 + 1))))
         else if prev_index w \<noteq> 0 then (w, url @ to_string (unat (prev_index w + 1)))
         else (w, url))"

subsection \<open>The body of the outer \<^verbatim>\<open>try\<close> and the recovery\<close>

text \<open>
  The statements of the outer \<^verbatim>\<open>try\<close> block up to the new \<^verbatim>\<open>watch_url\<close> (lines
  117 to 125 of \<^verbatim>\<open>Run\<close>, 192 to 200 of \<^verbatim>\<open>RunOnce\<close>): the exception that leaves
  the block, if any, and the state at that point. The argument \<open>base\<close> is the local
  \<^verbatim>\<open>wait_url_base\<close>. The last statement of the block in \<^verbatim>\<open>Run\<close>,
  \<^verbatim>\<open>max_failures = MAX_FAILURES\<close>, is in \<open>Run_iter\<close> below.
\<close>

definition watch_try ::
  "('w::len, 'r, 'c) world \<Rightarrow> string \<Rightarrow> ('w, 'r, 'c) frame \<Rightarrow> exn option \<times> ('w, 'r, 'c) frame" where
  "watch_try E base f =
     (case handle_Get E (watch_url f) f of
        (Inl e, f1) \<Rightarrow> (Some e, f1)
      | (Inr ret, f1) \<Rightarrow>
          (case Reply E ret of
             Inl e \<Rightarrow> (Some e, f1)
           | Inr r \<Rightarrow>
               (case invoke E r f1 of
                  (Some e, f2) \<Rightarrow> (Some e, f2)
                | (None, f2) \<Rightarrow>
                    (case get_modified_index E r of
                       Inl e \<Rightarrow> (Some e, f2)
                     | Inr i \<Rightarrow> (None, rewatch base (set_prev_index i f2))))))"

text \<open>
  The loop over the header lines (lines 148 to 154): \<^verbatim>\<open>pos\<close> receives the value of
  the comparison \<^verbatim>\<open>line.find(etcd_index_label) != std::string::npos\<close>, which is 1 or 0,
  since \<^verbatim>\<open>!=\<close> binds tighter than \<^verbatim>\<open>=\<close>. The result is the new \<^verbatim>\<open>prev_index_\<close>
  (the \<^verbatim>\<open>int\<close> of \<^verbatim>\<open>std::stoi\<close> converted to \<^verbatim>\<open>Index\<close>), or the exception thrown.
\<close>

fun scan_header :: "string list \<Rightarrow> 'w::len word \<Rightarrow> exn + 'w word" where
  "scan_header [] prev = Inr prev"
| "scan_header (line # rest) prev =
     (let pos = (if find_str line etcd_index_label \<noteq> None then 1 else 0 :: nat)
      in if pos \<noteq> 0 then
           (case substr line (pos + length etcd_index_label - 1) of
              Inl e \<Rightarrow> Inl e
            | Inr s \<Rightarrow> (case stoi s of Inl e \<Rightarrow> Inl e | Inr v \<Rightarrow> Inr (word_of_int v)))
         else scan_header rest prev)"

text \<open>
  The inner \<^verbatim>\<open>try\<close> block (lines 135 to 156 of \<^verbatim>\<open>Run\<close>, 207 to 228 of
  \<^verbatim>\<open>RunOnce\<close>): the exception that leaves it, if any, and the state at that point.
  Its handler is \<^verbatim>\<open>catch (...) {}\<close>, so the callers keep the state and drop the exception.
\<close>

definition recover ::
  "('w::len, 'r, 'c) world \<Rightarrow> string \<Rightarrow> string \<Rightarrow> ('w, 'r, 'c) frame \<Rightarrow> exn option \<times> ('w, 'r, 'c) frame" where
  "recover E key base f =
     (let f0 = handle_EnableHeader True f
      in case handle_Get E (url_prefix (engine f0) @ key) f0 of
           (Inl e, f1) \<Rightarrow> (Some e, f1)
         | (Inr ret, f1) \<Rightarrow>
             (case Reply E ret of
                Inl e \<Rightarrow> (Some e, f1)
              | Inr r \<Rightarrow>
                  (case invoke E r f1 of
                     (Some e, f2) \<Rightarrow> (Some e, f2)
                   | (None, f2) \<Rightarrow>
                       (case scan_header (getlines (Curl_GetHeader (handle (engine f2))))
                               (prev_index (engine f2)) of
                          Inl e \<Rightarrow> (Some e, f2)
                        | Inr i \<Rightarrow>
                            (None, rewatch base
                                     (handle_EnableHeader False (set_prev_index i f2)))))))"

subsection \<open>\<^verbatim>\<open>Watch::Run\<close>\<close>

text \<open>
  One turn of \<^verbatim>\<open>while (max_failures)\<close> with its handlers (lines 115 to 164):
  \<open>Inr\<close> the new \<^verbatim>\<open>max_failures\<close> and state, \<open>Inl\<close> an exception no handler takes.
\<close>

definition Run_iter ::
  "('w::len, 'r, 'c) world \<Rightarrow> string \<Rightarrow> string \<Rightarrow> int \<times> ('w, 'r, 'c) frame
     \<Rightarrow> exn \<times> ('w, 'r, 'c) frame + int \<times> ('w, 'r, 'c) frame" where
  "Run_iter E key base s =
     (case s of (max_failures, f) \<Rightarrow>
        (case watch_try E base f of
           (None, f1) \<Rightarrow> Inr (MAX_FAILURES, f1)
         | (Some (ReplyException error_code m), f1) \<Rightarrow>
             Inr (max_failures - 1,
                  if error_code = 401 then snd (recover E key base f1) else f1)
         | (Some (StdException m), f1) \<Rightarrow> Inr (max_failures - 1, f1)
         | (Some NonStdException, f1) \<Rightarrow> Inl (NonStdException, f1)))"

text \<open>
  The loop, with fuel for the number of turns: \<open>None\<close> when the fuel runs out while
  \<^verbatim>\<open>max_failures\<close> is not 0, that is, when the call is still in its loop after that
  many turns.
\<close>

fun Run_loop ::
  "('w::len, 'r, 'c) world \<Rightarrow> string \<Rightarrow> string \<Rightarrow> nat \<Rightarrow> int \<times> ('w, 'r, 'c) frame
     \<Rightarrow> (exn \<times> ('w, 'r, 'c) frame + int \<times> ('w, 'r, 'c) frame) option" where
  "Run_loop E key base 0 s = (if fst s \<noteq> 0 then None else Some (Inr s))"
| "Run_loop E key base (Suc n) s =
     (if fst s \<noteq> 0 then
        (case Run_iter E key base s of
           Inl x \<Rightarrow> Some (Inl x)
         | Inr s' \<Rightarrow> Run_loop E key base n s')
      else Some (Inr s))"

text \<open>
  \<^verbatim>\<open>Run\<close>: the entry, the loop, and after it
  \<^verbatim>\<open>if (! max_failures) throw ClientException("watch failed or timedout"); return;\<close>.
  \<open>Run_start\<close> is the state when the entry is done, with the callback state \<open>u\<close>.
\<close>

definition Run_start ::
  "string \<Rightarrow> 'w::len word \<Rightarrow> 'w watch \<Rightarrow> 'c \<Rightarrow> ('w, 'r, 'c) frame" where
  "Run_start key prevIndex w u =
     (case enter key prevIndex w of
        (w1, url) \<Rightarrow> \<lparr>engine = w1, watch_url = url, user = u, calls = []\<rparr>)"

definition Run ::
  "('w::len, 'r, 'c) world \<Rightarrow> nat \<Rightarrow> string \<Rightarrow> 'w word \<Rightarrow> 'w watch \<Rightarrow> 'c
     \<Rightarrow> (outcome \<times> ('w, 'r, 'c) frame) option" where
  "Run E fuel key prevIndex w u =
     (case Run_loop E key (wait_url_base w key) fuel (MAX_FAILURES, Run_start key prevIndex w u) of
           None \<Rightarrow> None
         | Some (Inl (e, f)) \<Rightarrow> Some (Throws (Propagated e), f)
         | Some (Inr (max_failures, f)) \<Rightarrow>
             Some (if max_failures = 0 then Throws (ClientException ''watch failed or timedout'')
                   else Returns, f))"

subsection \<open>\<^verbatim>\<open>Watch::RunOnce\<close>\<close>

text \<open>
  The entry, one pass through the outer \<^verbatim>\<open>try\<close> block, and the two handlers (lines
  202 to 233): the first takes every \<^verbatim>\<open>ReplyException\<close> and does nothing unless
  the error code is 401, the second throws
  \<^verbatim>\<open>ClientException("failed with" + std::string(e.what()))\<close>.
\<close>

definition RunOnce ::
  "('w::len, 'r, 'c) world \<Rightarrow> string \<Rightarrow> 'w word \<Rightarrow> 'w watch \<Rightarrow> 'c
     \<Rightarrow> outcome \<times> ('w, 'r, 'c) frame" where
  "RunOnce E key prevIndex w u =
     (case watch_try E (wait_url_base w key) (Run_start key prevIndex w u) of
           (None, f1) \<Rightarrow> (Returns, f1)
         | (Some (ReplyException error_code m), f1) \<Rightarrow>
             (Returns, if error_code = 401 then snd (recover E key (wait_url_base w key) f1) else f1)
         | (Some (StdException m), f1) \<Rightarrow> (Throws (ClientException (''failed with'' @ m)), f1)
         | (Some NonStdException, f1) \<Rightarrow> (Throws (Propagated NonStdException), f1))"

subsection \<open>A fresh watch object\<close>

text \<open>The constructor: \<^verbatim>\<open>prev_index_(0)\<close>, the URL prefix, a new \<^verbatim>\<open>Curl\<close> with header capture off.\<close>

definition new_curl :: curl where
  "new_curl = \<lparr>enable_header = False, write_stream = [], header_stream = [], performed = []\<rparr>"

definition new_watch :: "string \<Rightarrow> nat \<Rightarrow> 'w::len watch" where
  "new_watch server port =
     \<lparr>prev_index = 0,
      url_prefix = ''http://'' @ server @ '':'' @ to_string port @ ''/v2/keys'',
      handle = new_curl\<rparr>"

subsection \<open>Runs of failing turns\<close>

text \<open>
  A turn of the loop fails when its outer \<^verbatim>\<open>try\<close> block is left by an exception
  that one of the two handlers takes. \<open>fail_streak E key base k s\<close> is the state after
  \<open>k\<close> such turns in a row from \<open>s\<close>, and \<open>None\<close> when one of them completes its
  \<^verbatim>\<open>try\<close> block or lets an exception out of \<^verbatim>\<open>Run\<close>.
\<close>

fun fail_streak ::
  "('w::len, 'r, 'c) world \<Rightarrow> string \<Rightarrow> string \<Rightarrow> nat \<Rightarrow> int \<times> ('w, 'r, 'c) frame
     \<Rightarrow> (int \<times> ('w, 'r, 'c) frame) option" where
  "fail_streak E key base 0 s = Some s"
| "fail_streak E key base (Suc k) s =
     (case fst (watch_try E base (snd s)) of
        None \<Rightarrow> None
      | Some e \<Rightarrow>
          (case Run_iter E key base s of
             Inl x \<Rightarrow> None
           | Inr s' \<Rightarrow> fail_streak E key base k s'))"

text \<open>The state in which the loop stopped, whether by an exception or by its condition.\<close>

definition last_frame ::
  "exn \<times> ('w::len, 'r, 'c) frame + int \<times> ('w, 'r, 'c) frame \<Rightarrow> ('w, 'r, 'c) frame" where
  "last_frame res = (case res of Inl x \<Rightarrow> snd x | Inr s \<Rightarrow> snd s)"

subsection \<open>Sample collaborators\<close>

text \<open>
  A reply type for the examples: the body is the decimal modified index, or \<open>E\<close> and an
  error code; an empty body does not decode. The sample callback records the replies it
  is given. The sample network answers the first requests from a list and lets every
  later request fail.
\<close>

definition CRLF :: string where
  "CRLF = [CHR 0x0D, CHR 0x0A]"

definition sample_Reply :: "string \<Rightarrow> exn + nat" where
  "sample_Reply b =
     (case b of
        [] \<Rightarrow> Inl (StdException ''empty reply'')
      | c # cs \<Rightarrow>
          if c = CHR ''E'' then
            (case stoi cs of Inl e \<Rightarrow> Inl e | Inr code \<Rightarrow> Inl (ReplyException code ''etcd error''))
          else (case stoi b of Inl e \<Rightarrow> Inl e | Inr v \<Rightarrow> Inr (nat v)))"

definition timeout :: response where
  "timeout = Response (Some ''Failed easy perform'') [] []"

definition scripted :: "response list \<Rightarrow> nat \<Rightarrow> response" where
  "scripted rs n = (if n < length rs then rs ! n else timeout)"

definition sample_world :: "response list \<Rightarrow> (32, nat, nat list) world" where
  "sample_world rs =
     \<lparr>Reply = sample_Reply, get_modified_index = (\<lambda>r. Inr (of_nat r)),
      callback = (\<lambda>u r. (None, u @ [r])), network = scripted rs\<rparr>"

definition sample_watch :: "32 watch" where
  "sample_watch = new_watch ''127.0.0.1'' 2379"

definition header_block :: "string list \<Rightarrow> string" where
  "header_block ls = concat (map (\<lambda>l. l @ CRLF) ls) @ CRLF"

text \<open>A callback that throws \<open>e\<close> when it is first invoked and records its replies.\<close>

definition throw_first :: "exn \<Rightarrow> nat list \<Rightarrow> nat \<Rightarrow> exn option \<times> nat list" where
  "throw_first e u r = (if u = [] then Some e else None, u @ [r])"

section \<open>Properties\<close>

subsection \<open>What one turn changes\<close>

lemmas frame_defs = handle_Get_def Curl_Get_def invoke_def Let_def rewatch_def set_prev_index_def
  handle_EnableHeader_def Curl_EnableHeader_def Curl_GetHeader_def

lemma watch_try_raised:
  assumes "watch_try E base f = (Some e, f1)"
  shows "prev_index (engine f1) = prev_index (engine f) \<and>
         url_prefix (engine f1) = url_prefix (engine f) \<and>
         enable_header (handle (engine f1)) = enable_header (handle (engine f)) \<and>
         performed (handle (engine f1)) = performed (handle (engine f)) @ [watch_url f] \<and>
         watch_url f1 = watch_url f"
  using assms
  by (auto simp: watch_try_def frame_defs split: prod.splits sum.splits option.splits)

lemma recover_frame:
  assumes "recover E key base f = (e, f1)"
  shows "url_prefix (engine f1) = url_prefix (engine f) \<and>
         performed (handle (engine f1)) = performed (handle (engine f)) @ [url_prefix (engine f) @ key]"
  using assms
  by (auto simp: recover_def frame_defs split: prod.splits sum.splits option.splits)

lemma watch_try_transport_error:
  assumes "resp_error (network E (length (performed (handle (engine f))))) = Some m"
  shows "fst (watch_try E base f) = Some (StdException m)"
  using assms
  by (simp add: watch_try_def frame_defs split: prod.splits sum.splits option.splits)

lemma watch_try_decode_error:
  assumes "resp_error (network E (length (performed (handle (engine f))))) = None"
    and "Reply E (resp_body (network E (length (performed (handle (engine f)))))) = Inl e"
  shows "fst (watch_try E base f) = Some e"
  using assms
  by (simp add: watch_try_def frame_defs split: prod.splits sum.splits option.splits)

lemma decimal_snoc: "decimal acc (xs @ [c]) = 10 * decimal acc xs + (of_char c - 48)"
  by (induction xs arbitrary: acc) simp_all

lemma digit_char_value: "d < 10 \<Longrightarrow> of_char (digit_char d) - 48 = d"
proof -
  assume "d < 10"
  then have "d \<in> {0, 1, 2, 3, 4, 5, 6, 7, 8, 9}" by auto
  then show ?thesis by (auto simp: digit_char_def)
qed

lemma decimal_to_string: "decimal 0 (to_string n) = n"
proof (induction n rule: to_string.induct)
  case (1 n)
  show ?case
  proof (cases "n < 10")
    case True
    then show ?thesis by (simp add: to_string.simps [of n] digit_char_value)
  next
    case False
    with "1" have "decimal 0 (to_string (n div 10)) = n div 10" by simp
    with False show ?thesis
      by (simp add: to_string.simps [of n] decimal_snoc digit_char_value)
  qed
qed

lemma to_string_inj: "to_string m = to_string n \<Longrightarrow> m = n"
  by (metis decimal_to_string)

lemma next_index_fresh: "to_string (unat (i + 1)) \<noteq> to_string (unat (i :: 'w::len word))"
proof
  assume "to_string (unat (i + 1)) = to_string (unat i)"
  then have "unat (i + 1) = unat i" by (rule to_string_inj)
  then have "i + 1 = i" by (simp only: word_unat_eq_iff)
  then show False by simp
qed

lemma Run_iter_raised:
  assumes "fst (watch_try E base (snd s)) = Some e"
    and "Run_iter E key base s = Inr s'"
  shows "fst s' = fst s - 1"
  using assms
  by (cases s; cases "watch_try E base (snd s)"; cases e)
     (auto simp: Run_iter_def split: if_splits)

lemma Run_loop_turn:
  assumes "fst s \<noteq> 0" and "Run_iter E key base s = Inr s'"
  shows "Run_loop E key base (Suc n) s = Run_loop E key base n s'"
  using assms by simp

lemma fail_streak_steps:
  "fail_streak E key base k s = Some s' \<Longrightarrow> int k \<le> fst s \<Longrightarrow>
     fst s' = fst s - int k \<and>
     (\<forall>n. Run_loop E key base (k + n) s = Run_loop E key base n s')"
proof (induction k arbitrary: s)
  case 0
  then show ?case by simp
next
  case (Suc k)
  from Suc.prems(1) obtain e s1 where e: "fst (watch_try E base (snd s)) = Some e"
    and s1: "Run_iter E key base s = Inr s1" and rest: "fail_streak E key base k s1 = Some s'"
    by (auto split: option.splits sum.splits)
  have b: "fst s1 = fst s - 1" using e s1 by (rule Run_iter_raised)
  with Suc.prems(2) have "int k \<le> fst s1" by simp
  from Suc.IH [OF rest this] have ih: "fst s' = fst s1 - int k"
    "\<And>n. Run_loop E key base (k + n) s1 = Run_loop E key base n s'" by auto
  from Suc.prems(2) have nz: "fst s \<noteq> 0" by auto
  have "Run_loop E key base (Suc k + n) s = Run_loop E key base n s'" for n
    using Run_loop_turn [OF nz s1, of "k + n"] ih(2) by simp
  with ih(1) b show ?case by simp
qed

lemma fail_streak_budget:
  "fail_streak E key base k s = Some s' \<Longrightarrow> int k \<le> fst s \<Longrightarrow> fst s' = fst s - int k"
  using fail_streak_steps by blast

lemma fail_streak_loop:
  "fail_streak E key base k s = Some s' \<Longrightarrow> int k \<le> fst s \<Longrightarrow>
     Run_loop E key base (k + n) s = Run_loop E key base n s'"
  using fail_streak_steps by blast

lemma Run_loop_done: "fst s = 0 \<Longrightarrow> Run_loop E key base n s = Some (Inr s)"
  by (cases n) simp_all

lemma Run_loop_starved: "fst s \<noteq> 0 \<Longrightarrow> Run_loop E key base 0 s = None"
  by simp

lemma Run_loop_exit:
  "Run_loop E key base n s = Some (Inr s') \<Longrightarrow> fst s' = 0"
proof (induction n arbitrary: s)
  case 0
  then show ?case by (auto split: if_splits)
next
  case (Suc n)
  then show ?case by (auto split: if_splits sum.splits)
qed

lemma watch_try_std:
  assumes "\<forall>b e. Reply E b = Inl e \<longrightarrow> derived_from_std_exception e"
    and "\<forall>r e. get_modified_index E r = Inl e \<longrightarrow> derived_from_std_exception e"
    and "\<forall>u r e. fst (callback E u r) = Some e \<longrightarrow> derived_from_std_exception e"
    and "fst (watch_try E base f) = Some e"
  shows "derived_from_std_exception e"
proof -
  let ?k = "length (performed (handle (engine f)))"
  show ?thesis
  proof (cases "resp_error (network E ?k)")
    case (Some m)
    with assms(4) show ?thesis
      by (auto simp: watch_try_def frame_defs)
  next
    case None
    show ?thesis
    proof (cases "Reply E (resp_body (network E ?k))")
      case (Inl e')
      with None assms(1,4) show ?thesis
        by (auto simp: watch_try_def frame_defs)
    next
      case (Inr r)
      show ?thesis
      proof (cases "fst (callback E (user f) r)")
        case (Some e')
        with assms(3) have "derived_from_std_exception e'" by blast
        with Some None Inr assms(4) show ?thesis
          by (auto simp: watch_try_def frame_defs split: prod.splits)
      next
        case cb: None
        with None Inr assms(2,4) show ?thesis
          by (auto simp: watch_try_def frame_defs split: prod.splits sum.splits)
      qed
    qed
  qed
qed

lemma Run_iter_std:
  assumes "\<forall>b e. Reply E b = Inl e \<longrightarrow> derived_from_std_exception e"
    and "\<forall>r e. get_modified_index E r = Inl e \<longrightarrow> derived_from_std_exception e"
    and "\<forall>u r e. fst (callback E u r) = Some e \<longrightarrow> derived_from_std_exception e"
  shows "Run_iter E key base s \<noteq> Inl x"
proof
  assume esc: "Run_iter E key base s = Inl x"
  obtain mf f where s: "s = (mf, f)" by (cases s)
  obtain eo f1 where w: "watch_try E base f = (eo, f1)" by (cases "watch_try E base f")
  from esc s w have "eo = Some NonStdException"
    by (auto simp: Run_iter_def split: option.splits exn.splits)
  with w have "fst (watch_try E base f) = Some NonStdException" by simp
  from watch_try_std [OF assms this] show False by simp
qed

lemma Run_loop_std:
  assumes "\<forall>b e. Reply E b = Inl e \<longrightarrow> derived_from_std_exception e"
    and "\<forall>r e. get_modified_index E r = Inl e \<longrightarrow> derived_from_std_exception e"
    and "\<forall>u r e. fst (callback E u r) = Some e \<longrightarrow> derived_from_std_exception e"
  shows "Run_loop E key base n s \<noteq> Some (Inl x)"
proof (induction n arbitrary: s)
  case 0
  then show ?case by simp
next
  case (Suc n)
  show ?case
  proof (cases "Run_iter E key base s")
    case (Inl y)
    with Run_iter_std [OF assms] show ?thesis by blast
  next
    case (Inr s')
    with Suc.IH [of s'] show ?thesis by simp
  qed
qed

lemma Run_unfold:
  "Run E n key prevIndex w u =
     (case Run_loop E key (wait_url_base w key) n (MAX_FAILURES, Run_start key prevIndex w u) of
        None \<Rightarrow> None
      | Some (Inl x) \<Rightarrow> Some (Throws (Propagated (fst x)), snd x)
      | Some (Inr s) \<Rightarrow>
          Some (if fst s = 0 then Throws (ClientException ''watch failed or timedout'')
                else Returns, snd s))"
  by (simp add: Run_def split: option.splits sum.splits prod.splits)

lemma Run_never_returns: "Run E n key prevIndex w u \<noteq> Some (Returns, f)"
proof (cases "Run_loop E key (wait_url_base w key) n (MAX_FAILURES, Run_start key prevIndex w u)")
  case None
  then show ?thesis by (simp add: Run_unfold)
next
  case (Some r)
  show ?thesis
  proof (cases r)
    case (Inl x)
    with Some show ?thesis by (simp add: Run_unfold)
  next
    case (Inr s)
    with Some have "fst s = 0" by (simp add: Run_loop_exit)
    with Some Inr show ?thesis by (simp add: Run_unfold)
  qed
qed

lemma Run_only_ClientException:
  assumes "\<forall>b e. Reply E b = Inl e \<longrightarrow> derived_from_std_exception e"
    and "\<forall>r e. get_modified_index E r = Inl e \<longrightarrow> derived_from_std_exception e"
    and "\<forall>c r e. fst (callback E c r) = Some e \<longrightarrow> derived_from_std_exception e"
    and "Run E n key prevIndex w u = Some (out, f)"
  shows "out = Throws (ClientException ''watch failed or timedout'')"
proof (cases "Run_loop E key (wait_url_base w key) n (MAX_FAILURES, Run_start key prevIndex w u)")
  case None
  with assms(4) show ?thesis by (simp add: Run_unfold)
next
  case (Some r)
  show ?thesis
  proof (cases r)
    case (Inl x)
    with Some Run_loop_std [OF assms(1-3)] show ?thesis by blast
  next
    case (Inr s)
    with Some have "fst s = 0" by (simp add: Run_loop_exit)
    with Some Inr assms(4) show ?thesis by (simp add: Run_unfold)
  qed
qed

lemma Run_iter_all_fail:
  assumes "\<forall>k. resp_error (network E k) \<noteq> None"
  shows "\<exists>f1. Run_iter E key base (mf, f) = Inr (mf - 1, f1) \<and>
           prev_index (engine f1) = prev_index (engine f)"
proof -
  obtain m where m: "resp_error (network E (length (performed (handle (engine f))))) = Some m"
    using assms by (meson option.exhaust)
  obtain f1 where f1: "watch_try E base f = (Some (StdException m), f1)"
    using watch_try_transport_error [OF m, of base] by (cases "watch_try E base f") auto
  have "Run_iter E key base (mf, f) = Inr (mf - 1, f1)"
    by (simp add: Run_iter_def f1)
  with watch_try_raised [OF f1] show ?thesis by simp
qed

lemma Run_loop_all_fail_cursor:
  assumes "\<forall>k. resp_error (network E k) \<noteq> None"
  shows "Run_loop E key base n (mf, f) = Some r \<Longrightarrow>
           \<exists>f1. r = Inr (0, f1) \<and> prev_index (engine f1) = prev_index (engine f)"
proof (induction n arbitrary: mf f)
  case 0
  then show ?case by (auto split: if_splits)
next
  case (Suc n)
  show ?case
  proof (cases "mf = 0")
    case True
    with Suc.prems show ?thesis by auto
  next
    case False
    obtain f1 where f1: "Run_iter E key base (mf, f) = Inr (mf - 1, f1)"
      "prev_index (engine f1) = prev_index (engine f)"
      using Run_iter_all_fail [OF assms] by blast
    from Suc.prems False f1 have "Run_loop E key base n (mf - 1, f1) = Some r" by simp
    from Suc.IH [OF this] f1 show ?thesis by auto
  qed
qed

lemma Run_loop_all_fail_ends:
  assumes "\<forall>k. resp_error (network E k) \<noteq> None"
  shows "0 \<le> mf \<Longrightarrow> nat mf \<le> n \<Longrightarrow> \<exists>f1. Run_loop E key base n (mf, f) = Some (Inr (0, f1))"
proof (induction n arbitrary: mf f)
  case 0
  then show ?case by auto
next
  case (Suc n)
  show ?case
  proof (cases "mf = 0")
    case True
    then show ?thesis by auto
  next
    case False
    obtain f1 where f1: "Run_iter E key base (mf, f) = Inr (mf - 1, f1)"
      using Run_iter_all_fail [OF assms] by blast
    have "\<exists>f2. Run_loop E key base n (mf - 1, f1) = Some (Inr (0, f2))"
      using Suc.prems False by (intro Suc.IH) auto
    with False f1 show ?thesis by simp
  qed
qed

lemma Run_start_cursor:
  "prevIndex \<noteq> 0 \<Longrightarrow> prev_index (engine (Run_start key prevIndex w u)) = prevIndex"
  by (simp add: Run_start_def enter_def Let_def)

lemma Run_start_handle:
  "handle (engine (Run_start key prevIndex w u)) = handle w"
  by (simp add: Run_start_def enter_def Let_def)

lemma watch_try_returned:
  assumes "watch_try E base f = (None, f1)"
  shows "\<exists>r i. Reply E (resp_body (network E (length (performed (handle (engine f)))))) = Inr r \<and>
           get_modified_index E r = Inr i \<and>
           prev_index (engine f1) = i \<and>
           watch_url f1 = base @ to_string (unat (i + 1)) \<and>
           calls f1 = calls f @ [r]"
  using assms
  by (auto simp: watch_try_def frame_defs split: prod.splits sum.splits option.splits)

lemma watch_try_performed:
  "performed (handle (engine (snd (watch_try E base f)))) =
     performed (handle (engine f)) @ [watch_url f]"
  by (auto simp: watch_try_def frame_defs split: prod.splits sum.splits option.splits)

lemma watch_try_success:
  assumes "resp_error (network E (length (performed (handle (engine f))))) = None"
    and "Reply E (resp_body (network E (length (performed (handle (engine f)))))) = Inr r"
    and "fst (callback E (user f) r) = None"
    and "get_modified_index E r = Inr i"
  shows "fst (watch_try E base f) = None \<and>
         prev_index (engine (snd (watch_try E base f))) = i \<and>
         watch_url (snd (watch_try E base f)) = base @ to_string (unat (i + 1)) \<and>
         calls (snd (watch_try E base f)) = calls f @ [r]"
  using assms
  by (auto simp: watch_try_def frame_defs split: prod.splits sum.splits option.splits)

lemma watch_try_callback_raised:
  assumes "resp_error (network E (length (performed (handle (engine f))))) = None"
    and "Reply E (resp_body (network E (length (performed (handle (engine f)))))) = Inr r"
    and "fst (callback E (user f) r) = Some e"
  shows "fst (watch_try E base f) = Some e"
  using assms
  by (auto simp: watch_try_def frame_defs split: prod.splits sum.splits option.splits)

lemma Run_iter_success:
  assumes "fst (watch_try E base (snd s)) = None"
  shows "Run_iter E key base s = Inr (MAX_FAILURES, snd (watch_try E base (snd s)))"
  using assms
  by (cases s; cases "watch_try E base (snd s)") (simp add: Run_iter_def)

lemma Run_iter_failure:
  assumes "fst (watch_try E base f) = Some e" and "derived_from_std_exception e"
  shows "\<exists>f1. Run_iter E key base (mf, f) = Inr (mf - 1, f1) \<and>
           ((\<forall>m. e \<noteq> ReplyException 401 m) \<longrightarrow> f1 = snd (watch_try E base f))"
  using assms
  by (cases "watch_try E base f"; cases e) (auto simp: Run_iter_def)

subsection \<open>The first URL, \<^verbatim>\<open>RunOnce\<close> and the recovery in general\<close>

text \<open>
  What holds of the parts the evaluated examples below go through: the first URL for
  every cursor, the requests and the three ways out of \<^verbatim>\<open>RunOnce\<close>, the header
  capture and the cursor after a recovery, and the header scan when no line has the label
  and when the first line that has it starts with it.
\<close>

lemma enter_watch_url:
  "watch_url (Run_start key prevIndex w u) =
     (if prevIndex \<noteq> 0 then url_prefix w @ key @ ''?wait=true'' @ to_string (unat (prevIndex + 1))
      else if prev_index w \<noteq> 0 then
        url_prefix w @ key @ ''?wait=true'' @ to_string (unat (prev_index w + 1))
      else url_prefix w @ key @ ''?wait=true'')"
  by (simp add: Run_start_def enter_def watch_url_base_def Let_def)

lemma recover_performed_snd:
  "performed (handle (engine (snd (recover E key base f)))) =
     performed (handle (engine f)) @ [url_prefix (engine f) @ key]"
  using recover_frame [of E key base f] by (cases "recover E key base f") simp

lemma RunOnce_requests:
  fixes E :: "('w::len, 'r, 'c) world"
  shows "\<exists>rest. performed (handle (engine (snd (RunOnce E key prevIndex w u)))) =
      performed (handle w) @ watch_url (Run_start key prevIndex w u :: ('w, 'r, 'c) frame) # rest"
proof -
  let ?f = "Run_start key prevIndex w u :: ('w, 'r, 'c) frame"
  let ?t = "watch_try E (wait_url_base w key) ?f"
  have p: "performed (handle (engine (snd ?t))) = performed (handle w) @ [watch_url ?f]"
    by (simp add: watch_try_performed Run_start_handle)
  show ?thesis
  proof (cases ?t)
    case (Pair eo f1)
    with p have p1: "performed (handle (engine f1)) = performed (handle w) @ [watch_url ?f]" by simp
    show ?thesis
    proof (cases eo)
      case None
      with Pair p1 show ?thesis by (simp add: RunOnce_def)
    next
      case (Some e)
      with Pair p1 show ?thesis
        by (cases e) (simp_all add: RunOnce_def recover_performed_snd)
    qed
  qed
qed

lemma RunOnce_transport_failure:
  fixes E :: "('w::len, 'r, 'c) world"
  assumes "resp_error (network E (length (performed (handle w)))) = Some m"
  shows "fst (RunOnce E key prevIndex w u) = Throws (ClientException (''failed with'' @ m))"
proof -
  let ?f = "Run_start key prevIndex w u :: ('w, 'r, 'c) frame"
  from assms have "resp_error (network E (length (performed (handle (engine ?f))))) = Some m"
    by (simp add: Run_start_handle)
  from watch_try_transport_error [OF this, of "wait_url_base w key"] show ?thesis
    by (cases "watch_try E (wait_url_base w key) ?f") (simp add: RunOnce_def)
qed

lemma RunOnce_reply_error:
  fixes E :: "('w::len, 'r, 'c) world"
  assumes "resp_error (network E (length (performed (handle w)))) = None"
    and "Reply E (resp_body (network E (length (performed (handle w))))) = Inl (ReplyException c m)"
  shows "fst (RunOnce E key prevIndex w u) = Returns"
proof -
  let ?f = "Run_start key prevIndex w u :: ('w, 'r, 'c) frame"
  from assms have "resp_error (network E (length (performed (handle (engine ?f))))) = None"
    "Reply E (resp_body (network E (length (performed (handle (engine ?f)))))) =
       Inl (ReplyException c m)"
    by (simp_all add: Run_start_handle)
  from watch_try_decode_error [OF this, of "wait_url_base w key"] show ?thesis
    by (cases "watch_try E (wait_url_base w key) ?f") (simp add: RunOnce_def)
qed

lemma recover_header_capture:
  "enable_header (handle (engine (snd (recover E key base f)))) =
     (fst (recover E key base f) \<noteq> None)"
  by (auto simp: recover_def frame_defs split: prod.splits sum.splits option.splits)

lemma recover_raised_cursor:
  "fst (recover E key base f) \<noteq> None \<Longrightarrow>
     prev_index (engine (snd (recover E key base f))) = prev_index (engine f) \<and>
     watch_url (snd (recover E key base f)) = watch_url f"
  by (auto simp: recover_def frame_defs split: prod.splits sum.splits option.splits)

lemma scan_header_absent:
  "\<forall>l \<in> set ls. find_str l etcd_index_label = None \<Longrightarrow> scan_header ls prev = Inr prev"
  by (induction ls) simp_all

lemma find_str_prefix: "find_str (lab @ v) lab = Some 0"
proof -
  have "prefix lab (lab @ v)" by simp
  then show ?thesis by (cases "lab @ v") auto
qed

lemma scan_header_at_line_start:
  assumes "\<forall>l \<in> set before. find_str l etcd_index_label = None"
  shows "scan_header (before @ (etcd_index_label @ v) # rest) prev =
           (case stoi v of Inl e \<Rightarrow> Inl e | Inr n \<Rightarrow> Inr (word_of_int n))"
  using assms
proof (induction before)
  case Nil
  have "find_str (etcd_index_label @ v) etcd_index_label \<noteq> None"
    by (simp add: find_str_prefix)
  then show ?case by (simp add: substr_def etcd_index_label_def split: sum.splits)
next
  case (Cons l before)
  then show ?case by simp
qed

lemma stoi_value_line: "stoi (''100'' @ [CHR 0x0D]) = Inr 100"
  by (simp add: stoi_def isspace_def isdigit_def)

subsection \<open>The ways out of \<^verbatim>\<open>Run\<close> and the requests of the loop\<close>

lemma Run_iter_escape: "Run_iter E key base s = Inl x \<Longrightarrow> fst x = NonStdException"
  by (cases s; cases "watch_try E base (snd s)")
     (auto simp: Run_iter_def split: option.splits exn.splits)

lemma Run_loop_escape: "Run_loop E key base n s = Some (Inl x) \<Longrightarrow> fst x = NonStdException"
proof (induction n arbitrary: s)
  case 0
  then show ?case by (simp split: if_splits)
next
  case (Suc n)
  show ?case
  proof (cases "Run_iter E key base s")
    case (Inl y)
    with Suc.prems have "x = y" by (simp split: if_splits)
    with Inl show ?thesis by (simp add: Run_iter_escape)
  next
    case (Inr s')
    with Suc.prems have "Run_loop E key base n s' = Some (Inl x)" by (simp split: if_splits)
    then show ?thesis by (rule Suc.IH)
  qed
qed

lemma Run_exits:
  assumes "Run E n key prevIndex w u = Some (out, f)"
  shows "out = Throws (ClientException ''watch failed or timedout'') \<or>
         out = Throws (Propagated NonStdException)"
proof (cases "Run_loop E key (wait_url_base w key) n (MAX_FAILURES, Run_start key prevIndex w u)")
  case None
  with assms show ?thesis by (simp add: Run_unfold)
next
  case (Some res)
  show ?thesis
  proof (cases res)
    case (Inl x)
    with Some have "fst x = NonStdException" by (simp add: Run_loop_escape)
    with Some Inl assms show ?thesis by (simp add: Run_unfold)
  next
    case (Inr s)
    with Some have "fst s = 0" by (simp add: Run_loop_exit)
    with Some Inr assms show ?thesis by (simp add: Run_unfold)
  qed
qed

lemma Run_iter_performed:
  "\<exists>rest. performed (handle (engine (last_frame (Run_iter E key base (mf, f))))) =
      performed (handle (engine f)) @ watch_url f # rest"
proof -
  have p: "performed (handle (engine (snd (watch_try E base f)))) =
      performed (handle (engine f)) @ [watch_url f]"
    by (rule watch_try_performed)
  show ?thesis
  proof (cases "watch_try E base f")
    case (Pair eo f1)
    with p have p1: "performed (handle (engine f1)) = performed (handle (engine f)) @ [watch_url f]"
      by simp
    show ?thesis
    proof (cases eo)
      case None
      with Pair p1 show ?thesis by (simp add: Run_iter_def last_frame_def)
    next
      case (Some e)
      with Pair p1 show ?thesis
        by (cases e) (simp_all add: Run_iter_def last_frame_def recover_performed_snd)
    qed
  qed
qed

lemma Run_loop_performed:
  "Run_loop E key base n s = Some res \<Longrightarrow>
     \<exists>rest. performed (handle (engine (last_frame res))) = performed (handle (engine (snd s))) @ rest"
proof (induction n arbitrary: s)
  case 0
  then show ?case by (auto simp: last_frame_def split: if_splits)
next
  case (Suc n)
  show ?case
  proof (cases "fst s = 0")
    case True
    with Suc.prems show ?thesis by (auto simp: last_frame_def)
  next
    case False
    obtain mf f where s: "s = (mf, f)" by (cases s)
    from Run_iter_performed [of E key base mf f] obtain rest where
      it: "performed (handle (engine (last_frame (Run_iter E key base (mf, f))))) =
        performed (handle (engine f)) @ watch_url f # rest" by blast
    show ?thesis
    proof (cases "Run_iter E key base (mf, f)")
      case (Inl x)
      with Suc.prems False s have "res = Inl x" by simp
      with it Inl s show ?thesis by auto
    next
      case (Inr s')
      with Suc.prems False s have "Run_loop E key base n s' = Some res" by simp
      from Suc.IH [OF this] obtain rest' where
        "performed (handle (engine (last_frame res))) = performed (handle (engine (snd s'))) @ rest'"
        by blast
      with it Inr s show ?thesis by (simp add: last_frame_def)
    qed
  qed
qed

lemma word_succ_above: "(i :: 'w::len word) + 1 \<noteq> 0 \<Longrightarrow> j \<le> i \<Longrightarrow> j \<noteq> i + 1"
proof
  assume nz: "i + 1 \<noteq> 0" and le: "j \<le> i" and eq: "j = i + 1"
  from nz have "1 + i \<noteq> 0" by (simp add: add.commute)
  then have "unat (1 + i) = Suc (unat i)" by (rule unatSuc)
  then have "unat (i + 1) = Suc (unat i)" by (simp add: add.commute)
  moreover from le eq have "unat (i + 1) \<le> unat i" by (simp add: word_le_nat_alt)
  ultimately show False by simp
qed

subsection \<open>Evaluation on the samples\<close>

lemmas eval_defs = header_block_def throw_first_def RunOnce_def Run_start_def enter_def watch_url_base_def wait_url_base_def
  watch_try_def recover_def Run_iter_def frame_defs
  sample_world_def sample_watch_def new_watch_def new_curl_def scripted_def timeout_def
  sample_Reply_def to_string.simps digit_char_def stoi_def isspace_def isdigit_def getlines_def
  substr_def etcd_index_label_def CRLF_def MAX_FAILURES_def

lemma Run_loop_numeral:
  "Run_loop E key base (numeral k) s =
     (if fst s \<noteq> 0 then
        (case Run_iter E key base s of
           Inl x \<Rightarrow> Some (Inl x)
         | Inr s' \<Rightarrow> Run_loop E key base (pred_numeral k) s')
      else Some (Inr s))"
  by (simp add: numeral_eq_Suc)

lemma fail_streak_numeral:
  "fail_streak E key base (numeral k) s =
     (case fst (watch_try E base (snd s)) of
        None \<Rightarrow> None
      | Some e \<Rightarrow>
          (case Run_iter E key base s of
             Inl x \<Rightarrow> None
           | Inr s' \<Rightarrow> fail_streak E key base (pred_numeral k) s'))"
  by (simp add: numeral_eq_Suc)

lemma sample_Reply_std: "sample_Reply b = Inl e \<Longrightarrow> derived_from_std_exception e"
  by (auto simp: sample_Reply_def stoi_def Let_def split: list.splits if_splits sum.splits)

subsection \<open>The claims of the specification\<close>

text \<open>
  C1. With a known cursor the first URL of \<^verbatim>\<open>Run\<close> and of \<^verbatim>\<open>RunOnce\<close> is the
  decimal of the cursor plus 1 appended to \<^verbatim>\<open>...?wait=true\<close>: the entry appends to
  \<^verbatim>\<open>watch_url_base\<close>, not to \<^verbatim>\<open>wait_url_base\<close>, so \<^verbatim>\<open>&waitIndex=\<close> is missing.
  Evaluated for cursor 42, passed as \<^verbatim>\<open>prevIndex\<close> and cached; without a cursor the URL
  is \<^verbatim>\<open>...?wait=true\<close>.
\<close>

theorem C1_first_url_lacks_waitIndex:
  "performed (handle (engine (snd
      (RunOnce (sample_world []) ''/message'' 42 sample_watch [])))) =
     [''http://127.0.0.1:2379/v2/keys/message?wait=true43''] \<and>
   performed (handle (engine (snd
      (RunOnce (sample_world []) ''/message'' 0 (sample_watch\<lparr>prev_index := 42\<rparr>) [])))) =
     [''http://127.0.0.1:2379/v2/keys/message?wait=true43''] \<and>
   map_option (\<lambda>r. hd (performed (handle (engine (snd r)))))
     (Run (sample_world []) 5 ''/message'' 42 sample_watch []) =
     Some ''http://127.0.0.1:2379/v2/keys/message?wait=true43'' \<and>
   performed (handle (engine (snd
      (RunOnce (sample_world []) ''/message'' 0 sample_watch [])))) =
     [''http://127.0.0.1:2379/v2/keys/message?wait=true'']"
  by (simp add: eval_defs Run_def Run_loop_numeral)

text \<open>
  C2 (amended). From a full budget, \<^verbatim>\<open>MAX_FAILURES\<close> failing turns in a row end the
  loop: fewer leave it running, and after exactly that many \<^verbatim>\<open>Run\<close> throws the
  \<^verbatim>\<open>ClientException\<close> "watch failed or timedout" in the state the last failing turn
  left, whatever fuel remains, so no further request is made. \<^verbatim>\<open>Run\<close> never returns
  normally. When the reply type and the callback throw only exceptions derived from
  \<^verbatim>\<open>std::exception\<close>, that \<^verbatim>\<open>ClientException\<close> is its only way out; the one other
  way out is an object of another type thrown by them, which passes both handlers.
\<close>

theorem C2_budget_exhaustion:
  fixes E :: "('w::len, 'r, 'c) world"
  shows "(\<forall>k f s. k < nat MAX_FAILURES \<and> fail_streak E key base k (MAX_FAILURES, f) = Some s \<longrightarrow>
            Run_loop E key base k (MAX_FAILURES, f) = None) \<and>
         (\<forall>f s n. fail_streak E key base (nat MAX_FAILURES) (MAX_FAILURES, f) = Some s \<longrightarrow>
            Run_loop E key base (nat MAX_FAILURES + n) (MAX_FAILURES, f) = Some (Inr (0, snd s))) \<and>
         (\<forall>s n. fail_streak E key (wait_url_base w key) (nat MAX_FAILURES)
                   (MAX_FAILURES, Run_start key prevIndex w u) = Some s \<longrightarrow>
            Run E (nat MAX_FAILURES + n) key prevIndex w u =
              Some (Throws (ClientException ''watch failed or timedout''), snd s)) \<and>
         (\<forall>n f. Run E n key prevIndex w u \<noteq> Some (Returns, f)) \<and>
         ((\<forall>b e. Reply E b = Inl e \<longrightarrow> derived_from_std_exception e) \<and>
          (\<forall>r e. get_modified_index E r = Inl e \<longrightarrow> derived_from_std_exception e) \<and>
          (\<forall>c r e. fst (callback E c r) = Some e \<longrightarrow> derived_from_std_exception e) \<longrightarrow>
          (\<forall>n out f. Run E n key prevIndex w u = Some (out, f) \<longrightarrow>
             out = Throws (ClientException ''watch failed or timedout''))) \<and>
         (\<forall>n out f. Run E n key prevIndex w u = Some (out, f) \<longrightarrow>
            out = Throws (ClientException ''watch failed or timedout'') \<or>
            out = Throws (Propagated NonStdException))"
proof -
  have early: "Run_loop E key base k (MAX_FAILURES, f) = None"
    if "k < nat MAX_FAILURES" and "fail_streak E key base k (MAX_FAILURES, f) = Some s"
    for k base f and s :: "int \<times> ('w, 'r, 'c) frame"
  proof -
    from that(1) have le: "int k \<le> fst (MAX_FAILURES, f)" by simp
    from fail_streak_budget [OF that(2) le] that(1) have "fst s \<noteq> 0" by auto
    with fail_streak_loop [OF that(2) le, of 0] show ?thesis by simp
  qed
  have abort: "Run_loop E key base (nat MAX_FAILURES + n) (MAX_FAILURES, f) = Some (Inr (0, snd s))"
    if "fail_streak E key base (nat MAX_FAILURES) (MAX_FAILURES, f) = Some s"
    for base f n and s :: "int \<times> ('w, 'r, 'c) frame"
  proof -
    have le: "int (nat MAX_FAILURES) \<le> fst (MAX_FAILURES, f)" by (simp add: MAX_FAILURES_def)
    from fail_streak_budget [OF that le] have z: "fst s = 0"
      by (simp add: MAX_FAILURES_def)
    from fail_streak_loop [OF that le]
    have l: "Run_loop E key base (nat MAX_FAILURES + n) (MAX_FAILURES, f) = Run_loop E key base n s" .
    from z have "Run_loop E key base n s = Some (Inr s)" by (rule Run_loop_done)
    with l z show ?thesis by (cases s) simp
  qed
  have abort_Run: "Run E (nat MAX_FAILURES + n) key prevIndex w u =
              Some (Throws (ClientException ''watch failed or timedout''), snd s)"
    if "fail_streak E key (wait_url_base w key) (nat MAX_FAILURES)
                   (MAX_FAILURES, Run_start key prevIndex w u) = Some s"
    for n and s :: "int \<times> ('w, 'r, 'c) frame"
    using abort [OF that, of n] by (simp add: Run_unfold)
  show ?thesis
  proof (intro conjI allI impI)
    fix k f and s :: "int \<times> ('w, 'r, 'c) frame"
    assume "k < nat MAX_FAILURES \<and> fail_streak E key base k (MAX_FAILURES, f) = Some s"
    then have "k < nat MAX_FAILURES" and "fail_streak E key base k (MAX_FAILURES, f) = Some s"
      by simp_all
    then show "Run_loop E key base k (MAX_FAILURES, f) = None" by (rule early)
  next
    fix f n and s :: "int \<times> ('w, 'r, 'c) frame"
    assume "fail_streak E key base (nat MAX_FAILURES) (MAX_FAILURES, f) = Some s"
    then show "Run_loop E key base (nat MAX_FAILURES + n) (MAX_FAILURES, f) = Some (Inr (0, snd s))"
      by (rule abort)
  next
    fix n and s :: "int \<times> ('w, 'r, 'c) frame"
    assume "fail_streak E key (wait_url_base w key) (nat MAX_FAILURES)
                   (MAX_FAILURES, Run_start key prevIndex w u) = Some s"
    then show "Run E (nat MAX_FAILURES + n) key prevIndex w u =
              Some (Throws (ClientException ''watch failed or timedout''), snd s)"
      by (rule abort_Run)
  next
    fix n f
    show "Run E n key prevIndex w u \<noteq> Some (Returns, f)" by (rule Run_never_returns)
  next
    fix n out f
    assume std: "(\<forall>b e. Reply E b = Inl e \<longrightarrow> derived_from_std_exception e) \<and>
          (\<forall>r e. get_modified_index E r = Inl e \<longrightarrow> derived_from_std_exception e) \<and>
          (\<forall>c r e. fst (callback E c r) = Some e \<longrightarrow> derived_from_std_exception e)"
      and r: "Run E n key prevIndex w u = Some (out, f)"
    from std have s1: "\<forall>b e. Reply E b = Inl e \<longrightarrow> derived_from_std_exception e"
      and s2: "\<forall>r e. get_modified_index E r = Inl e \<longrightarrow> derived_from_std_exception e"
      and s3: "\<forall>c r e. fst (callback E c r) = Some e \<longrightarrow> derived_from_std_exception e"
      by simp_all
    show "out = Throws (ClientException ''watch failed or timedout'')"
      by (rule Run_only_ClientException [OF s1 s2 s3 r])
  next
    fix n out f
    assume "Run E n key prevIndex w u = Some (out, f)"
    then show "out = Throws (ClientException ''watch failed or timedout'') \<or>
            out = Throws (Propagated NonStdException)"
      by (rule Run_exits)
  qed
qed


text \<open>
  Five timeouts in a row on a fresh watch; four leave the loop running; and a reply
  followed by five timeouts, where the sample reply type and callback throw only standard
  exceptions.
\<close>

theorem C2_witness:
  "(\<exists>s. fail_streak (sample_world []) ''/message'' (wait_url_base sample_watch ''/message'')
          (nat MAX_FAILURES) (MAX_FAILURES, Run_start ''/message'' 0 sample_watch []) = Some s \<and>
        Run (sample_world []) (nat MAX_FAILURES + 3) ''/message'' 0 sample_watch [] =
          Some (Throws (ClientException ''watch failed or timedout''), snd s) \<and>
        length (performed (handle (engine (snd s)))) = 5) \<and>
   (\<exists>s. 4 < nat MAX_FAILURES \<and>
        fail_streak (sample_world []) ''/message'' (wait_url_base sample_watch ''/message'')
          4 (MAX_FAILURES, Run_start ''/message'' 0 sample_watch []) = Some s \<and>
        Run_loop (sample_world []) ''/message'' (wait_url_base sample_watch ''/message'')
          4 (MAX_FAILURES, Run_start ''/message'' 0 sample_watch []) = None) \<and>
   (\<exists>f. Run (sample_world [Response None ''42'' []]) 6 ''/message'' 0 sample_watch [] =
          Some (Throws (ClientException ''watch failed or timedout''), f) \<and>
        calls f = [42] \<and> length (performed (handle (engine f))) = 6)"
proof -
  let ?E = "sample_world []"
  let ?base = "wait_url_base sample_watch ''/message''"
  let ?f = "Run_start ''/message'' 0 sample_watch [] :: (32, nat, nat list) frame"
  obtain s where s: "fail_streak ?E ''/message'' ?base (nat MAX_FAILURES) (MAX_FAILURES, ?f) = Some s"
    and p: "length (performed (handle (engine (snd s)))) = 5"
    by (simp add: eval_defs fail_streak_numeral)
  obtain s4 where s4: "fail_streak ?E ''/message'' ?base 4 (MAX_FAILURES, ?f) = Some s4"
    by (simp add: eval_defs fail_streak_numeral)
  have lt: "4 < nat MAX_FAILURES" by (simp add: MAX_FAILURES_def)
  note c2 = C2_budget_exhaustion [of ?E "''/message''" ?base sample_watch 0 "[]"]
  from c2 s have "Run ?E (nat MAX_FAILURES + 3) ''/message'' 0 sample_watch [] =
          Some (Throws (ClientException ''watch failed or timedout''), snd s)" by blast
  moreover from c2 s4 lt
  have "Run_loop ?E ''/message'' ?base 4 (MAX_FAILURES, ?f) = None" by blast
  moreover have "\<exists>f. Run (sample_world [Response None ''42'' []]) 6 ''/message'' 0 sample_watch [] =
          Some (Throws (ClientException ''watch failed or timedout''), f) \<and>
        calls f = [42] \<and> length (performed (handle (engine f))) = 6"
  proof -
    let ?W = "sample_world [Response None ''42'' []]"
    have std1: "\<forall>b e. Reply ?W b = Inl e \<longrightarrow> derived_from_std_exception e"
      using sample_Reply_std by (simp add: sample_world_def)
    have std2: "\<forall>r e. get_modified_index ?W r = Inl e \<longrightarrow> derived_from_std_exception e"
      by (simp add: sample_world_def)
    have std3: "\<forall>c r e. fst (callback ?W c r) = Some e \<longrightarrow> derived_from_std_exception e"
      by (simp add: sample_world_def)
    obtain out f where run: "Run ?W 6 ''/message'' 0 sample_watch [] = Some (out, f)"
      and f: "calls f = [42]" "length (performed (handle (engine f))) = 6"
      by (simp add: eval_defs Run_def Run_loop_numeral)
    from C2_budget_exhaustion [of ?W "''/message''" ?base sample_watch 0 "[]"] std1 std2 std3 run
    have "out = Throws (ClientException ''watch failed or timedout'')" by blast
    with run f show ?thesis by blast
  qed
  ultimately show ?thesis using s p s4 lt by blast
qed


text \<open>
  The claim as stated fails for a callback that throws an object of a type not derived
  from \<^verbatim>\<open>std::exception\<close>: neither handler of lines 130 and 160 takes it, and
  \<^verbatim>\<open>Run\<close> is left by it after one request, with the failure budget untouched.
\<close>

theorem C2_counterexample:
  "Run ((sample_world [Response None ''42'' []])\<lparr>callback := throw_first NonStdException\<rparr>)
     5 ''/message'' 0 sample_watch [] =
   Some (Throws (Propagated NonStdException),
     \<lparr>engine = \<lparr>prev_index = 0, url_prefix = ''http://127.0.0.1:2379/v2/keys'',
         handle = \<lparr>enable_header = False, write_stream = ''42'', header_stream = [],
           performed = [''http://127.0.0.1:2379/v2/keys/message?wait=true'']\<rparr>\<rparr>,
      watch_url = ''http://127.0.0.1:2379/v2/keys/message?wait=true'',
      user = [42], calls = [42]\<rparr>)"
  by (simp add: eval_defs Run_def Run_loop_numeral)

text \<open>
  C3. A turn that completes its \<^verbatim>\<open>try\<close> block sets the budget back to
  \<^verbatim>\<open>MAX_FAILURES\<close>: after \<^verbatim>\<open>MAX_FAILURES - 1\<close> failing turns (budget 1), one
  successful turn and \<^verbatim>\<open>MAX_FAILURES - 1\<close> more failing turns, the budget is 1 again
  and the loop is still running; one more failing turn ends it.
\<close>

theorem C3_success_resets_budget:
  fixes E :: "('w::len, 'r, 'c) world"
  assumes "fail_streak E key base (nat (MAX_FAILURES - 1)) (MAX_FAILURES, f) = Some s4"
    and "fst (watch_try E base (snd s4)) = None"
    and "fail_streak E key base (nat (MAX_FAILURES - 1))
           (MAX_FAILURES, snd (watch_try E base (snd s4))) = Some s9"
  shows "fst s4 = 1 \<and>
         Run_iter E key base s4 = Inr (MAX_FAILURES, snd (watch_try E base (snd s4))) \<and>
         fst s9 = 1 \<and>
         Run_loop E key base (nat (MAX_FAILURES - 1) + (1 + nat (MAX_FAILURES - 1)))
           (MAX_FAILURES, f) = None \<and>
         (\<forall>s10 n. fail_streak E key base 1 s9 = Some s10 \<longrightarrow>
            Run_loop E key base (nat (MAX_FAILURES - 1) + (1 + (nat (MAX_FAILURES - 1) + (1 + n))))
              (MAX_FAILURES, f) = Some (Inr (0, snd s10)))"
proof -
  let ?k = "nat (MAX_FAILURES - 1)"
  let ?f5 = "snd (watch_try E base (snd s4))"
  have le: "int ?k \<le> fst (MAX_FAILURES, g)" for g :: "('w, 'r, 'c) frame"
    by (simp add: MAX_FAILURES_def)
  have b4: "fst s4 = 1"
    using fail_streak_budget [OF assms(1) le] by (simp add: MAX_FAILURES_def)
  have it: "Run_iter E key base s4 = Inr (MAX_FAILURES, ?f5)"
    using assms(2) by (rule Run_iter_success)
  have b9: "fst s9 = 1"
    using fail_streak_budget [OF assms(3) le] by (simp add: MAX_FAILURES_def)
  have skip: "Run_loop E key base (?k + (1 + (?k + n))) (MAX_FAILURES, f) = Run_loop E key base n s9"
    for n
  proof -
    have "Run_loop E key base (?k + (1 + (?k + n))) (MAX_FAILURES, f) =
        Run_loop E key base (Suc (?k + n)) s4"
      using fail_streak_loop [OF assms(1) le, of "1 + (?k + n)"] by simp
    also have "\<dots> = Run_loop E key base (?k + n) (MAX_FAILURES, ?f5)"
      using b4 it by (intro Run_loop_turn) simp_all
    also have "\<dots> = Run_loop E key base n s9"
      by (rule fail_streak_loop [OF assms(3) le])
    finally show ?thesis .
  qed
  have alive: "Run_loop E key base (?k + (1 + ?k)) (MAX_FAILURES, f) = None"
    using skip [of 0] b9 by simp
  have last: "Run_loop E key base (?k + (1 + (?k + (1 + n)))) (MAX_FAILURES, f) =
      Some (Inr (0, snd s10))" if "fail_streak E key base 1 s9 = Some s10" for s10 n
  proof -
    have "int 1 \<le> fst s9" using b9 by simp
    from fail_streak_budget [OF that this] fail_streak_loop [OF that this, of n] b9
    have z: "fst s10 = 0" and l: "Run_loop E key base (1 + n) s9 = Run_loop E key base n s10"
      by simp_all
    from z have "Run_loop E key base n s10 = Some (Inr s10)" by (rule Run_loop_done)
    with skip [of "1 + n"] l z show ?thesis by (cases s10) simp
  qed
  from b4 it b9 alive last show ?thesis by blast
qed

text \<open>Four timeouts, a reply with index 42, four more timeouts: the tenth request is the last.\<close>

theorem C3_witness:
  "\<exists>s4 s9 s10.
     fail_streak (sample_world [timeout, timeout, timeout, timeout, Response None ''42'' []])
       ''/message'' (wait_url_base sample_watch ''/message'') (nat (MAX_FAILURES - 1))
       (MAX_FAILURES, Run_start ''/message'' 0 sample_watch []) = Some s4 \<and>
     fst (watch_try (sample_world [timeout, timeout, timeout, timeout, Response None ''42'' []])
       (wait_url_base sample_watch ''/message'') (snd s4)) = None \<and>
     fail_streak (sample_world [timeout, timeout, timeout, timeout, Response None ''42'' []])
       ''/message'' (wait_url_base sample_watch ''/message'') (nat (MAX_FAILURES - 1))
       (MAX_FAILURES, snd (watch_try
          (sample_world [timeout, timeout, timeout, timeout, Response None ''42'' []])
          (wait_url_base sample_watch ''/message'') (snd s4))) = Some s9 \<and>
     fst s9 = 1 \<and>
     Run_loop (sample_world [timeout, timeout, timeout, timeout, Response None ''42'' []])
       ''/message'' (wait_url_base sample_watch ''/message'')
       (nat (MAX_FAILURES - 1) + (1 + nat (MAX_FAILURES - 1)))
       (MAX_FAILURES, Run_start ''/message'' 0 sample_watch []) = None \<and>
     fail_streak (sample_world [timeout, timeout, timeout, timeout, Response None ''42'' []])
       ''/message'' (wait_url_base sample_watch ''/message'') 1 s9 = Some s10 \<and>
     Run_loop (sample_world [timeout, timeout, timeout, timeout, Response None ''42'' []])
       ''/message'' (wait_url_base sample_watch ''/message'')
       (nat (MAX_FAILURES - 1) + (1 + (nat (MAX_FAILURES - 1) + (1 + 0))))
       (MAX_FAILURES, Run_start ''/message'' 0 sample_watch []) = Some (Inr (0, snd s10)) \<and>
     length (performed (handle (engine (snd s10)))) = 10"
proof -
  let ?E = "sample_world [timeout, timeout, timeout, timeout, Response None ''42'' []]"
  let ?base = "wait_url_base sample_watch ''/message''"
  let ?f = "Run_start ''/message'' 0 sample_watch [] :: (32, nat, nat list) frame"
  obtain s4 s9 s10
    where s4: "fail_streak ?E ''/message'' ?base (nat (MAX_FAILURES - 1)) (MAX_FAILURES, ?f) = Some s4"
    and ok: "fst (watch_try ?E ?base (snd s4)) = None"
    and s9: "fail_streak ?E ''/message'' ?base (nat (MAX_FAILURES - 1))
       (MAX_FAILURES, snd (watch_try ?E ?base (snd s4))) = Some s9"
    and s10: "fail_streak ?E ''/message'' ?base 1 s9 = Some s10"
    and p: "length (performed (handle (engine (snd s10)))) = 10"
    by (simp add: eval_defs fail_streak_numeral)
  note c3 = C3_success_resets_budget [OF s4 ok s9]
  from c3 have a: "fst s9 = 1" by blast
  from c3 have b: "Run_loop ?E ''/message'' ?base
       (nat (MAX_FAILURES - 1) + (1 + nat (MAX_FAILURES - 1))) (MAX_FAILURES, ?f) = None" by blast
  from c3 s10 have c: "Run_loop ?E ''/message'' ?base
       (nat (MAX_FAILURES - 1) + (1 + (nat (MAX_FAILURES - 1) + (1 + 0)))) (MAX_FAILURES, ?f) =
      Some (Inr (0, snd s10))" by blast
  from s4 ok s9 a b s10 c p show ?thesis by blast
qed

text \<open>
  C4 (amended). A turn of \<^verbatim>\<open>Run\<close> whose reply decodes, whose callback returns and
  whose modified index is \<open>i\<close> sets the cursor to \<open>i\<close>, invokes the callback once with
  the reply and leaves the URL \<^verbatim>\<open>...?wait=true&waitIndex=\<close>\<open>i + 1\<close>. The loop goes on
  after it, and whenever \<^verbatim>\<open>Run\<close>'s loop stops later, its requests are those made before
  the turn, the request of the turn, that URL, and what follows. The index asked for is
  not the index just observed; and when no reply delivered so far in the call has an
  index above \<open>i\<close> and \<open>i + 1\<close> does not wrap, it is the index of no reply delivered so
  far.
\<close>

theorem C4_cursor_advances:
  fixes E :: "('w::len, 'r, 'c) world"
  assumes "resp_error (network E (length (performed (handle (engine f))))) = None"
    and "Reply E (resp_body (network E (length (performed (handle (engine f)))))) = Inr r"
    and "fst (callback E (user f) r) = None"
    and "get_modified_index E r = Inr i"
  shows "\<exists>f1. Run_iter E key (wait_url_base w key) (mf, f) = Inr (MAX_FAILURES, f1) \<and>
           prev_index (engine f1) = i \<and>
           watch_url f1 = url_prefix w @ key @ ''?wait=true&waitIndex='' @ to_string (unat (i + 1)) \<and>
           calls f1 = calls f @ [r] \<and>
           performed (handle (engine f1)) = performed (handle (engine f)) @ [watch_url f] \<and>
           performed (handle (engine (snd (watch_try E (wait_url_base w key) f1)))) =
             performed (handle (engine f1)) @
               [url_prefix w @ key @ ''?wait=true&waitIndex='' @ to_string (unat (i + 1))] \<and>
           to_string (unat (i + 1)) \<noteq> to_string (unat i) \<and>
           (mf \<noteq> 0 \<longrightarrow> Run_loop E key (wait_url_base w key) (Suc 0) (mf, f) = None) \<and>
           (\<forall>n res. mf \<noteq> 0 \<and>
               Run_loop E key (wait_url_base w key) (Suc (Suc n)) (mf, f) = Some res \<longrightarrow>
               (\<exists>rest. performed (handle (engine (last_frame res))) =
                  performed (handle (engine f)) @ watch_url f #
                    (url_prefix w @ key @ ''?wait=true&waitIndex='' @ to_string (unat (i + 1))) #
                    rest)) \<and>
           ((\<forall>r' \<in> set (calls f). \<forall>j. get_modified_index E r' = Inr j \<longrightarrow> j \<le> i) \<and>
              i + 1 \<noteq> 0 \<longrightarrow>
              (\<forall>r' \<in> set (calls f1). get_modified_index E r' \<noteq> Inr (i + 1)))"
proof -
  let ?base = "wait_url_base w key"
  let ?f1 = "snd (watch_try E ?base f)"
  let ?next = "url_prefix w @ key @ ''?wait=true&waitIndex='' @ to_string (unat (i + 1))"
  from watch_try_success [OF assms, of ?base]
  have ok: "fst (watch_try E ?base f) = None" and cur: "prev_index (engine ?f1) = i"
    and url: "watch_url ?f1 = ?base @ to_string (unat (i + 1))"
    and cs: "calls ?f1 = calls f @ [r]" by simp_all
  have it: "Run_iter E key ?base (mf, f) = Inr (MAX_FAILURES, ?f1)"
    using Run_iter_success [of E ?base "(mf, f)" key] ok by simp
  have b: "?base = url_prefix w @ key @ ''?wait=true&waitIndex=''"
    by (simp add: wait_url_base_def watch_url_base_def)
  from url b have url': "watch_url ?f1 = ?next" by simp
  have p1: "performed (handle (engine ?f1)) = performed (handle (engine f)) @ [watch_url f]"
    by (rule watch_try_performed)
  have p2: "performed (handle (engine (snd (watch_try E ?base ?f1)))) =
      performed (handle (engine ?f1)) @ [?next]"
    using watch_try_performed [of E ?base ?f1] url' by simp
  have full: "MAX_FAILURES \<noteq> 0" by (simp add: MAX_FAILURES_def)
  have goes_on: "Run_loop E key ?base (Suc 0) (mf, f) = None" if "mf \<noteq> 0"
    using that it full by simp
  have asks: "\<exists>rest. performed (handle (engine (last_frame res))) =
      performed (handle (engine f)) @ watch_url f # ?next # rest"
    if nz: "mf \<noteq> 0" and run: "Run_loop E key ?base (Suc (Suc n)) (mf, f) = Some res" for n res
  proof -
    from nz run it have run1: "Run_loop E key ?base (Suc n) (MAX_FAILURES, ?f1) = Some res"
      by simp
    from Run_iter_performed [of E key ?base MAX_FAILURES ?f1] url' obtain rest where
      turn: "performed (handle (engine (last_frame (Run_iter E key ?base (MAX_FAILURES, ?f1))))) =
        performed (handle (engine ?f1)) @ ?next # rest" by auto
    show ?thesis
    proof (cases "Run_iter E key ?base (MAX_FAILURES, ?f1)")
      case (Inl x)
      with run1 full have "res = Inl x" by simp
      with turn Inl p1 show ?thesis by auto
    next
      case (Inr s')
      with run1 full have "Run_loop E key ?base n s' = Some res" by simp
      from Run_loop_performed [OF this] obtain rest' where
        "performed (handle (engine (last_frame res))) = performed (handle (engine (snd s'))) @ rest'"
        by blast
      with turn Inr p1 show ?thesis by (simp add: last_frame_def)
    qed
  qed
  have fresh: "get_modified_index E r' \<noteq> Inr (i + 1)"
    if mono: "\<forall>r' \<in> set (calls f). \<forall>j. get_modified_index E r' = Inr j \<longrightarrow> j \<le> i"
      and nz: "i + 1 \<noteq> 0" and mem: "r' \<in> set (calls ?f1)" for r'
  proof
    assume eq: "get_modified_index E r' = Inr (i + 1)"
    from mem cs have "r' \<in> set (calls f) \<or> r' = r" by auto
    then show False
    proof
      assume "r' \<in> set (calls f)"
      with mono eq have "i + 1 \<le> i" by blast
      with word_succ_above [OF nz this] show False by simp
    next
      assume "r' = r"
      with eq assms(4) show False by simp
    qed
  qed
  show ?thesis
  proof (intro exI [of _ ?f1] conjI impI allI ballI)
    show "Run_iter E key ?base (mf, f) = Inr (MAX_FAILURES, ?f1)" by (rule it)
    show "prev_index (engine ?f1) = i" by (rule cur)
    show "watch_url ?f1 = ?next" by (rule url')
    show "calls ?f1 = calls f @ [r]" by (rule cs)
    show "performed (handle (engine ?f1)) = performed (handle (engine f)) @ [watch_url f]"
      by (rule p1)
    show "performed (handle (engine (snd (watch_try E ?base ?f1)))) =
      performed (handle (engine ?f1)) @ [?next]" by (rule p2)
    show "to_string (unat (i + 1)) \<noteq> to_string (unat i)" by (rule next_index_fresh)
  next
    assume "mf \<noteq> 0"
    then show "Run_loop E key ?base (Suc 0) (mf, f) = None" by (rule goes_on)
  next
    fix n res
    assume "mf \<noteq> 0 \<and> Run_loop E key ?base (Suc (Suc n)) (mf, f) = Some res"
    then have "mf \<noteq> 0" and "Run_loop E key ?base (Suc (Suc n)) (mf, f) = Some res" by blast+
    then show "\<exists>rest. performed (handle (engine (last_frame res))) =
      performed (handle (engine f)) @ watch_url f # ?next # rest" by (rule asks)
  next
    fix r'
    assume "(\<forall>r' \<in> set (calls f). \<forall>j. get_modified_index E r' = Inr j \<longrightarrow> j \<le> i) \<and> i + 1 \<noteq> 0"
      and "r' \<in> set (calls ?f1)"
    then show "get_modified_index E r' \<noteq> Inr (i + 1)" using fresh by blast
  qed
qed

text \<open>
  The scenario of the spec and its next turn: cursor 0, a first reply with index 42, the
  next request asks for 43; the reply to it has index 43, and the request after it asks
  for 44, the index of neither reply.
\<close>

theorem C4_witness:
  "resp_error (network (sample_world [Response None ''42'' [], Response None ''43'' []])
      (length (performed (handle (engine
         (Run_start ''/message'' 0 sample_watch [] :: (32, nat, nat list) frame)))))) = None \<and>
   Reply (sample_world [Response None ''42'' [], Response None ''43'' []]) ''42'' = Inr 42 \<and>
   get_modified_index (sample_world [Response None ''42'' [], Response None ''43'' []]) 42 = Inr 42 \<and>
   prev_index (engine (Run_start ''/message'' 0 sample_watch [] :: (32, nat, nat list) frame)) = 0 \<and>
   (\<exists>f1. Run_iter (sample_world [Response None ''42'' [], Response None ''43'' []]) ''/message''
            (wait_url_base sample_watch ''/message'')
            (MAX_FAILURES, Run_start ''/message'' 0 sample_watch []) = Inr (MAX_FAILURES, f1) \<and>
         prev_index (engine f1) = 42 \<and>
         watch_url f1 = ''http://127.0.0.1:2379/v2/keys/message?wait=true&waitIndex=43'' \<and>
         calls f1 = [42] \<and>
         performed (handle (engine (snd (watch_try
            (sample_world [Response None ''42'' [], Response None ''43'' []])
            (wait_url_base sample_watch ''/message'') f1)))) =
           [''http://127.0.0.1:2379/v2/keys/message?wait=true'',
            ''http://127.0.0.1:2379/v2/keys/message?wait=true&waitIndex=43'']) \<and>
   Run_loop (sample_world [Response None ''42'' [], Response None ''43'' []]) ''/message''
     (wait_url_base sample_watch ''/message'') (Suc 0)
     (MAX_FAILURES, Run_start ''/message'' 0 sample_watch []) = None \<and>
   (\<exists>res rest.
      Run_loop (sample_world [Response None ''42'' [], Response None ''43'' []]) ''/message''
        (wait_url_base sample_watch ''/message'') (Suc (Suc 5))
        (MAX_FAILURES, Run_start ''/message'' 0 sample_watch []) = Some res \<and>
      performed (handle (engine (last_frame res))) =
        ''http://127.0.0.1:2379/v2/keys/message?wait=true'' #
        ''http://127.0.0.1:2379/v2/keys/message?wait=true&waitIndex=43'' # rest) \<and>
   (\<exists>f2. Run_iter (sample_world [Response None ''42'' [], Response None ''43'' []]) ''/message''
            (wait_url_base sample_watch ''/message'')
            (MAX_FAILURES, snd (watch_try
               (sample_world [Response None ''42'' [], Response None ''43'' []])
               (wait_url_base sample_watch ''/message'')
               (Run_start ''/message'' 0 sample_watch []))) = Inr (MAX_FAILURES, f2) \<and>
         prev_index (engine f2) = 43 \<and>
         watch_url f2 = ''http://127.0.0.1:2379/v2/keys/message?wait=true&waitIndex=44'' \<and>
         calls f2 = [42, 43] \<and>
         get_modified_index (sample_world [Response None ''42'' [], Response None ''43'' []]) 42
           \<noteq> Inr 44 \<and>
         get_modified_index (sample_world [Response None ''42'' [], Response None ''43'' []]) 43
           \<noteq> Inr 44)"
proof -
  let ?E = "sample_world [Response None ''42'' [], Response None ''43'' []]"
  let ?base = "wait_url_base sample_watch ''/message''"
  let ?f = "Run_start ''/message'' 0 sample_watch [] :: (32, nat, nat list) frame"
  let ?g = "snd (watch_try ?E ?base ?f)"
  let ?u0 = "''http://127.0.0.1:2379/v2/keys/message?wait=true''"
  let ?u43 = "''http://127.0.0.1:2379/v2/keys/message?wait=true&waitIndex=43''"
  let ?u44 = "''http://127.0.0.1:2379/v2/keys/message?wait=true&waitIndex=44''"
  have h1: "resp_error (network ?E (length (performed (handle (engine ?f))))) = None"
    by (simp add: eval_defs)
  have h2: "Reply ?E (resp_body (network ?E (length (performed (handle (engine ?f)))))) = Inr 42"
    by (simp add: eval_defs)
  have h3: "fst (callback ?E (user ?f) 42) = None"
    by (simp add: eval_defs)
  have h4: "get_modified_index ?E 42 = Inr 42"
    by (simp add: eval_defs)
  have r: "Reply ?E ''42'' = Inr 42" by (simp add: eval_defs)
  have c: "prev_index (engine ?f) = 0" by (simp add: eval_defs)
  have u: "url_prefix sample_watch @ ''/message'' @ ''?wait=true&waitIndex='' @
             to_string (unat (42 + 1 :: 32 word)) = ?u43"
    "url_prefix sample_watch @ ''/message'' @ ''?wait=true&waitIndex='' @
             to_string (unat (43 + 1 :: 32 word)) = ?u44"
    "watch_url ?f = ?u0" "calls ?f = []" "performed (handle (engine ?f)) = []"
    by (simp_all add: eval_defs)
  have full: "MAX_FAILURES \<noteq> 0" by (simp add: MAX_FAILURES_def)
  note t1 = C4_cursor_advances [OF h1 h2 h3 h4, of "''/message''" sample_watch MAX_FAILURES]
  from t1 obtain f1 where f1: "Run_iter ?E ''/message'' ?base (MAX_FAILURES, ?f) = Inr (MAX_FAILURES, f1)"
    "prev_index (engine f1) = 42"
    "watch_url f1 = url_prefix sample_watch @ ''/message'' @ ''?wait=true&waitIndex='' @
             to_string (unat (42 + 1 :: 32 word))"
    "calls f1 = calls ?f @ [42]"
    "performed (handle (engine f1)) = performed (handle (engine ?f)) @ [watch_url ?f]"
    "performed (handle (engine (snd (watch_try ?E ?base f1)))) =
       performed (handle (engine f1)) @
         [url_prefix sample_watch @ ''/message'' @ ''?wait=true&waitIndex='' @
             to_string (unat (42 + 1 :: 32 word))]"
    and on: "MAX_FAILURES \<noteq> 0 \<longrightarrow> Run_loop ?E ''/message'' ?base (Suc 0) (MAX_FAILURES, ?f) = None"
    and asks: "\<forall>n res. MAX_FAILURES \<noteq> 0 \<and>
        Run_loop ?E ''/message'' ?base (Suc (Suc n)) (MAX_FAILURES, ?f) = Some res \<longrightarrow>
        (\<exists>rest. performed (handle (engine (last_frame res))) =
           performed (handle (engine ?f)) @ watch_url ?f #
             (url_prefix sample_watch @ ''/message'' @ ''?wait=true&waitIndex='' @
               to_string (unat (42 + 1 :: 32 word))) # rest)"
    by blast
  from f1 [unfolded u] have first: "\<exists>f1. Run_iter ?E ''/message'' ?base (MAX_FAILURES, ?f) = Inr (MAX_FAILURES, f1) \<and>
      prev_index (engine f1) = 42 \<and> watch_url f1 = ?u43 \<and> calls f1 = [42] \<and>
      performed (handle (engine (snd (watch_try ?E ?base f1)))) = [?u0, ?u43]"
    by (intro exI [of _ f1]) simp
  from on full have goes: "Run_loop ?E ''/message'' ?base (Suc 0) (MAX_FAILURES, ?f) = None"
    by blast
  obtain res where res: "Run_loop ?E ''/message'' ?base (Suc (Suc 5)) (MAX_FAILURES, ?f) = Some res"
    by (simp add: eval_defs Run_loop_numeral)
  from asks full res obtain rest where rest:
    "performed (handle (engine (last_frame res))) =
       performed (handle (engine ?f)) @ watch_url ?f #
         (url_prefix sample_watch @ ''/message'' @ ''?wait=true&waitIndex='' @
           to_string (unat (42 + 1 :: 32 word))) # rest"
    by blast
  from rest [unfolded u] have "performed (handle (engine (last_frame res))) = ?u0 # ?u43 # rest"
    by simp
  with res have later: "\<exists>res rest.
      Run_loop ?E ''/message'' ?base (Suc (Suc 5)) (MAX_FAILURES, ?f) = Some res \<and>
      performed (handle (engine (last_frame res))) = ?u0 # ?u43 # rest"
    by blast
  have g1: "resp_error (network ?E (length (performed (handle (engine ?g))))) = None"
    by (simp add: eval_defs)
  have g2: "Reply ?E (resp_body (network ?E (length (performed (handle (engine ?g)))))) = Inr 43"
    by (simp add: eval_defs)
  have g3: "fst (callback ?E (user ?g) 43) = None"
    by (simp add: eval_defs)
  have g4: "get_modified_index ?E 43 = Inr 43"
    by (simp add: eval_defs)
  have seen: "calls ?g = [42]" by (simp add: eval_defs)
  have mono: "\<forall>r' \<in> set (calls ?g). \<forall>j. get_modified_index ?E r' = Inr j \<longrightarrow> j \<le> 43"
    by (simp add: seen) (simp add: eval_defs)
  have nz: "(43 + 1 :: 32 word) \<noteq> 0" by simp
  note t2 = C4_cursor_advances [OF g1 g2 g3 g4, of "''/message''" sample_watch MAX_FAILURES]
  from t2 mono nz obtain f2 where f2: "Run_iter ?E ''/message'' ?base (MAX_FAILURES, ?g) = Inr (MAX_FAILURES, f2)"
    "prev_index (engine f2) = 43"
    "watch_url f2 = url_prefix sample_watch @ ''/message'' @ ''?wait=true&waitIndex='' @
             to_string (unat (43 + 1 :: 32 word))"
    "calls f2 = calls ?g @ [43]"
    "\<forall>r' \<in> set (calls f2). get_modified_index ?E r' \<noteq> Inr (43 + 1)"
    by blast
  from f2(4) seen have cs2: "calls f2 = [42, 43]" by simp
  with f2(5) have "get_modified_index ?E 42 \<noteq> Inr 44" "get_modified_index ?E 43 \<noteq> Inr 44"
    by simp_all
  with f2 [unfolded u] cs2 have second: "\<exists>f2. Run_iter ?E ''/message'' ?base (MAX_FAILURES, ?g) = Inr (MAX_FAILURES, f2) \<and>
      prev_index (engine f2) = 43 \<and> watch_url f2 = ?u44 \<and> calls f2 = [42, 43] \<and>
      get_modified_index ?E 42 \<noteq> Inr 44 \<and> get_modified_index ?E 43 \<noteq> Inr 44"
    by (intro exI [of _ f2]) simp
  from h1 r h4 c first goes later second show ?thesis by blast
qed

text \<open>
  The claim as stated fails when a later reply carries a smaller index: after replies with
  indices 42, 43 and 42 the fourth request asks for 43 again, an index already observed
  (lines 124 and 125 assign the cursor without comparing it). The call then runs into five
  timeouts.
\<close>

theorem C4_counterexample:
  "get_modified_index
     (sample_world [Response None ''42'' [], Response None ''43'' [], Response None ''42'' []]) 43 =
     Inr 43 \<and>
   Run (sample_world [Response None ''42'' [], Response None ''43'' [], Response None ''42'' []])
     8 ''/message'' 0 sample_watch [] =
   Some (Throws (ClientException ''watch failed or timedout''),
     \<lparr>engine = \<lparr>prev_index = 42, url_prefix = ''http://127.0.0.1:2379/v2/keys'',
         handle = \<lparr>enable_header = False, write_stream = [], header_stream = [],
           performed =
             [''http://127.0.0.1:2379/v2/keys/message?wait=true'',
              ''http://127.0.0.1:2379/v2/keys/message?wait=true&waitIndex=43'',
              ''http://127.0.0.1:2379/v2/keys/message?wait=true&waitIndex=44'',
              ''http://127.0.0.1:2379/v2/keys/message?wait=true&waitIndex=43'',
              ''http://127.0.0.1:2379/v2/keys/message?wait=true&waitIndex=43'',
              ''http://127.0.0.1:2379/v2/keys/message?wait=true&waitIndex=43'',
              ''http://127.0.0.1:2379/v2/keys/message?wait=true&waitIndex=43'',
              ''http://127.0.0.1:2379/v2/keys/message?wait=true&waitIndex=43'']\<rparr>\<rparr>,
      watch_url = ''http://127.0.0.1:2379/v2/keys/message?wait=true&waitIndex=43'',
      user = [42, 43, 42], calls = [42, 43, 42]\<rparr>)"
  by (simp add: eval_defs Run_def Run_loop_numeral)

text \<open>
  C5. The header scan takes the first line that contains \<^verbatim>\<open>X-Etcd-Index: \<close> anywhere
  and reads the integer at column 14 of that line, wherever the label is. Evaluated on a
  header block without a header of that name, whose \<^verbatim>\<open>X-Cache-Id\<close> line mentions the
  label at column 17: the cursor goes from 0 to 77. And on a block whose second line
  mentions the label and whose third line is the header with value 100: the cursor stays 0.
\<close>

theorem C5_cursor_read_at_column_14:
  "find_str ''X-Cache-Id: 1077 X-Etcd-Index: 5'' etcd_index_label = Some 17 \<and>
   prev_index (engine (snd
     (RunOnce (sample_world [Response None ''E401'' [],
         Response None ''7'' (header_block [''HTTP/1.1 200 OK'', ''X-Cache-Id: 1077 X-Etcd-Index: 5''])])
       ''/message'' 0 sample_watch []))) = 77 \<and>
   prev_index (engine (snd
     (RunOnce (sample_world [Response None ''E401'' [],
         Response None ''7'' (header_block [''HTTP/1.1 200 OK'',
            ''Warning: 199 X-Etcd-Index: stale'', ''X-Etcd-Index: 100''])])
       ''/message'' 0 sample_watch []))) = 0"
  by (simp add: eval_defs)

text \<open>
  C6. \<^verbatim>\<open>RunOnce\<close> returns normally, without a callback, when the decode throws a
  \<^verbatim>\<open>ReplyException\<close> whose error code is not 401 (here 300): its handler has no
  branch for it.
\<close>

theorem C6_RunOnce_returns_on_reply_error:
  "Reply (sample_world [Response None ''E300'' []]) ''E300'' =
     Inl (ReplyException 300 ''etcd error'') \<and>
   fst (RunOnce (sample_world [Response None ''E300'' []]) ''/message'' 0 sample_watch []) = Returns \<and>
   calls (snd (RunOnce (sample_world [Response None ''E300'' []]) ''/message'' 0 sample_watch [])) = []"
  by (simp add: eval_defs)

text \<open>
  C7. A turn of \<^verbatim>\<open>Run\<close> whose decode throws a \<^verbatim>\<open>ReplyException\<close> with error code
  401 takes exactly 1 from the failure budget, whatever the recovery does, and ends in
  the state the recovery left: an exception of the recovery does not leave the turn.
\<close>

theorem C7_stale_index_costs_one_failure:
  assumes "resp_error (network E (length (performed (handle (engine f))))) = None"
    and "Reply E (resp_body (network E (length (performed (handle (engine f)))))) =
           Inl (ReplyException 401 m)"
  shows "Run_iter E key base (mf, f) =
           Inr (mf - 1, snd (recover E key base (snd (watch_try E base f))))"
proof -
  have "fst (watch_try E base f) = Some (ReplyException 401 m)"
    using assms by (rule watch_try_decode_error)
  then show ?thesis
    by (cases "watch_try E base f") (simp add: Run_iter_def)
qed


text \<open>A stale index whose recovery is cut short by a callback that throws a non-standard object.\<close>

theorem C7_witness:
  "resp_error (network ((sample_world [Response None ''E401'' [], Response None ''7'' []])
       \<lparr>callback := \<lambda>u r. (Some NonStdException, u)\<rparr>)
     (length (performed (handle (engine (Run_start ''/message'' 0 sample_watch [] :: (32, nat, nat list) frame)))))) = None \<and>
   fst (recover ((sample_world [Response None ''E401'' [], Response None ''7'' []])
       \<lparr>callback := \<lambda>u r. (Some NonStdException, u)\<rparr>) ''/message''
       (wait_url_base sample_watch ''/message'')
       (snd (watch_try ((sample_world [Response None ''E401'' [], Response None ''7'' []])
       \<lparr>callback := \<lambda>u r. (Some NonStdException, u)\<rparr>) (wait_url_base sample_watch ''/message'')
         (Run_start ''/message'' 0 sample_watch [])))) = Some NonStdException \<and>
   Run_iter ((sample_world [Response None ''E401'' [], Response None ''7'' []])
       \<lparr>callback := \<lambda>u r. (Some NonStdException, u)\<rparr>) ''/message''
       (wait_url_base sample_watch ''/message'')
       (MAX_FAILURES, Run_start ''/message'' 0 sample_watch []) =
     Inr (MAX_FAILURES - 1,
       snd (recover ((sample_world [Response None ''E401'' [], Response None ''7'' []])
       \<lparr>callback := \<lambda>u r. (Some NonStdException, u)\<rparr>) ''/message''
       (wait_url_base sample_watch ''/message'')
       (snd (watch_try ((sample_world [Response None ''E401'' [], Response None ''7'' []])
       \<lparr>callback := \<lambda>u r. (Some NonStdException, u)\<rparr>) (wait_url_base sample_watch ''/message'')
         (Run_start ''/message'' 0 sample_watch [])))))"
  (is "?h1 \<and> ?r \<and> ?c")
proof -
  let ?E = "(sample_world [Response None ''E401'' [], Response None ''7'' []])
       \<lparr>callback := \<lambda>u r. (Some NonStdException, u)\<rparr>"
  let ?f = "Run_start ''/message'' 0 sample_watch [] :: (32, nat, nat list) frame"
  have h1: ?h1 by (simp add: eval_defs)
  have h2: "Reply ?E (resp_body (network ?E (length (performed (handle (engine ?f)))))) =
      Inl (ReplyException 401 ''etcd error'')"
    by (simp add: eval_defs)
  have r: ?r by (simp add: eval_defs)
  from C7_stale_index_costs_one_failure [OF h1 h2] have ?c .
  with h1 r show ?thesis by blast
qed

text \<open>
  C8. When the recovery is left by an exception (here the transport fails on the plain
  GET), \<^verbatim>\<open>EnableHeader(false)\<close> is skipped: header capture, off before, is on after
  \<^verbatim>\<open>RunOnce\<close> returns and after \<^verbatim>\<open>Run\<close> gives up.
\<close>

theorem C8_header_capture_stays_enabled:
  "enable_header (handle sample_watch) = False \<and>
   fst (RunOnce (sample_world [Response None ''E401'' [], timeout]) ''/message'' 0 sample_watch [])
     = Returns \<and>
   enable_header (handle (engine (snd
     (RunOnce (sample_world [Response None ''E401'' [], timeout]) ''/message'' 0 sample_watch []))))
     = True \<and>
   map_option (\<lambda>r. enable_header (handle (engine (snd r))))
     (Run (sample_world [Response None ''E401'' [], timeout]) 6 ''/message'' 0 sample_watch [])
     = Some True"
  by (simp add: eval_defs Run_def Run_loop_numeral)

text \<open>
  C9. A nonzero \<^verbatim>\<open>prevIndex\<close> replaces the cached cursor before any request is made;
  when every request fails, \<^verbatim>\<open>Run\<close> (which then throws once it has fuel for
  \<^verbatim>\<open>MAX_FAILURES\<close> turns) and \<^verbatim>\<open>RunOnce\<close> leave the cursor equal to it.
\<close>

theorem C9_prevIndex_overwrites_cursor:
  fixes E :: "('w::len, 'r, 'c) world"
  assumes "prevIndex \<noteq> 0"
  shows "prev_index (engine (Run_start key prevIndex w u)) = prevIndex \<and>
         performed (handle (engine (Run_start key prevIndex w u))) = performed (handle w) \<and>
         ((\<forall>k. resp_error (network E k) \<noteq> None) \<longrightarrow>
            (\<forall>n out f. Run E n key prevIndex w u = Some (out, f) \<longrightarrow>
               prev_index (engine f) = prevIndex) \<and>
            (\<forall>n. nat MAX_FAILURES \<le> n \<longrightarrow>
               (\<exists>f. Run E n key prevIndex w u =
                      Some (Throws (ClientException ''watch failed or timedout''), f) \<and>
                    prev_index (engine f) = prevIndex)) \<and>
            (\<exists>m f. RunOnce E key prevIndex w u = (Throws (ClientException (''failed with'' @ m)), f) \<and>
                   prev_index (engine f) = prevIndex))"
proof (intro conjI impI allI)
  show "prev_index (engine (Run_start key prevIndex w u)) = prevIndex"
    using assms by (rule Run_start_cursor)
  show "performed (handle (engine (Run_start key prevIndex w u))) = performed (handle w)"
    by (simp add: Run_start_handle)
next
  fix n out f
  assume fail: "\<forall>k. resp_error (network E k) \<noteq> None"
    and run: "Run E n key prevIndex w u = Some (out, f)"
  let ?base = "wait_url_base w key"
  let ?f0 = "Run_start key prevIndex w u :: ('w, 'r, 'c) frame"
  from run obtain r where r: "Run_loop E key ?base n (MAX_FAILURES, ?f0) = Some r"
    by (auto simp: Run_def Let_def split: option.splits)
  from Run_loop_all_fail_cursor [OF fail r] obtain f1
    where f1: "r = Inr (0, f1)" "prev_index (engine f1) = prev_index (engine ?f0)" by blast
  from run r f1 have "f = f1" by (simp add: Run_def Let_def)
  with f1 assms show "prev_index (engine f) = prevIndex" by (simp add: Run_start_cursor)
next
  fix n
  assume fail: "\<forall>k. resp_error (network E k) \<noteq> None" and n: "nat MAX_FAILURES \<le> n"
  let ?base = "wait_url_base w key"
  let ?f0 = "Run_start key prevIndex w u :: ('w, 'r, 'c) frame"
  from Run_loop_all_fail_ends [OF fail _ n, of key ?base ?f0] obtain f1
    where f1: "Run_loop E key ?base n (MAX_FAILURES, ?f0) = Some (Inr (0, f1))"
    by (auto simp: MAX_FAILURES_def)
  from Run_loop_all_fail_cursor [OF fail f1] assms
  have "prev_index (engine f1) = prevIndex" by (simp add: Run_start_cursor)
  with f1 show "\<exists>f. Run E n key prevIndex w u =
                      Some (Throws (ClientException ''watch failed or timedout''), f) \<and>
                    prev_index (engine f) = prevIndex"
    by (simp add: Run_def Let_def)
next
  assume fail: "\<forall>k. resp_error (network E k) \<noteq> None"
  let ?base = "wait_url_base w key"
  let ?f0 = "Run_start key prevIndex w u :: ('w, 'r, 'c) frame"
  obtain m where m: "resp_error (network E (length (performed (handle (engine ?f0))))) = Some m"
    using fail by (meson option.exhaust)
  obtain f1 where f1: "watch_try E ?base ?f0 = (Some (StdException m), f1)"
    using watch_try_transport_error [OF m, of ?base] by (cases "watch_try E ?base ?f0") auto
  have "RunOnce E key prevIndex w u = (Throws (ClientException (''failed with'' @ m)), f1)"
    by (simp add: RunOnce_def Let_def f1)
  moreover have "prev_index (engine f1) = prevIndex"
    using watch_try_raised [OF f1] assms by (simp add: Run_start_cursor)
  ultimately show "\<exists>m f. RunOnce E key prevIndex w u =
      (Throws (ClientException (''failed with'' @ m)), f) \<and> prev_index (engine f) = prevIndex"
    by blast
qed

text \<open>A watch that cached cursor 3 is run from 7 against a dead network.\<close>

theorem C9_witness:
  "(7 :: 32 word) \<noteq> 0 \<and>
   prev_index (sample_watch\<lparr>prev_index := 3\<rparr>) = 3 \<and>
   prev_index (engine (Run_start ''/message'' 7 (sample_watch\<lparr>prev_index := 3\<rparr>) []
      :: (32, nat, nat list) frame)) = 7 \<and>
   (\<exists>f. Run (sample_world []) 5 ''/message'' 7 (sample_watch\<lparr>prev_index := 3\<rparr>) [] =
          Some (Throws (ClientException ''watch failed or timedout''), f) \<and>
        prev_index (engine f) = 7) \<and>
   (\<exists>m f. RunOnce (sample_world []) ''/message'' 7 (sample_watch\<lparr>prev_index := 3\<rparr>) [] =
          (Throws (ClientException (''failed with'' @ m)), f) \<and>
        prev_index (engine f) = 7)"
proof -
  let ?w = "sample_watch\<lparr>prev_index := 3\<rparr>"
  have h: "(7 :: 32 word) \<noteq> 0" by simp
  have dead: "\<forall>k. resp_error (network (sample_world []) k) \<noteq> None"
    by (simp add: sample_world_def scripted_def timeout_def)
  have five: "nat MAX_FAILURES \<le> 5" by (simp add: MAX_FAILURES_def)
  note c9 = C9_prevIndex_overwrites_cursor [OF h, of "''/message''" ?w "[]" "sample_world []"]
  from c9 have a: "prev_index (engine (Run_start ''/message'' 7 ?w []
      :: (32, nat, nat list) frame)) = 7" by blast
  from c9 dead five have b: "\<exists>f. Run (sample_world []) 5 ''/message'' 7 ?w [] =
          Some (Throws (ClientException ''watch failed or timedout''), f) \<and>
        prev_index (engine f) = 7" by blast
  from c9 dead have c: "\<exists>m f. RunOnce (sample_world []) ''/message'' 7 ?w [] =
          (Throws (ClientException (''failed with'' @ m)), f) \<and>
        prev_index (engine f) = 7" by blast
  have d: "prev_index ?w = 3" by simp
  from h d a b c show ?thesis by blast
qed

text \<open>
  C10 (amended). When the callback throws an exception derived from
  \<^verbatim>\<open>std::exception\<close> in the outer \<^verbatim>\<open>try\<close> block, the cursor and the URL are as
  before when the block is left, the exception stays inside \<^verbatim>\<open>Run\<close> and the budget
  goes down by exactly 1; unless the exception is a \<^verbatim>\<open>ReplyException\<close> with error code
  401, which starts the recovery, the turn ends with the cursor and the URL unchanged.
\<close>

theorem C10_callback_exception_counts_as_failure:
  fixes E :: "('w::len, 'r, 'c) world"
  assumes "resp_error (network E (length (performed (handle (engine f))))) = None"
    and "Reply E (resp_body (network E (length (performed (handle (engine f)))))) = Inr r"
    and "fst (callback E (user f) r) = Some e"
    and "derived_from_std_exception e"
  shows "prev_index (engine (snd (watch_try E base f))) = prev_index (engine f) \<and>
         watch_url (snd (watch_try E base f)) = watch_url f \<and>
         (\<exists>f1. Run_iter E key base (mf, f) = Inr (mf - 1, f1) \<and>
            ((\<forall>m. e \<noteq> ReplyException 401 m) \<longrightarrow>
               prev_index (engine f1) = prev_index (engine f) \<and> watch_url f1 = watch_url f))"
proof -
  have raised: "fst (watch_try E base f) = Some e"
    using assms(1-3) by (rule watch_try_callback_raised)
  then obtain f0 where f0: "watch_try E base f = (Some e, f0)"
    by (cases "watch_try E base f") simp
  from watch_try_raised [OF f0] f0
  have same: "prev_index (engine (snd (watch_try E base f))) = prev_index (engine f)"
    "watch_url (snd (watch_try E base f)) = watch_url f" by simp_all
  from Run_iter_failure [OF raised assms(4), of key mf] same show ?thesis by auto
qed

text \<open>A callback that throws a \<^verbatim>\<open>std::exception\<close> on a reply with index 42: cursor 0 and the URL stay.\<close>

theorem C10_witness:
  "derived_from_std_exception (StdException ''callback failed'') \<and>
   Reply ((sample_world [Response None ''42'' []])
       \<lparr>callback := throw_first (StdException ''callback failed'')\<rparr>) ''42'' = Inr 42 \<and>
   fst (callback ((sample_world [Response None ''42'' []])
       \<lparr>callback := throw_first (StdException ''callback failed'')\<rparr>) [] 42) =
     Some (StdException ''callback failed'') \<and>
   (\<exists>f1. Run_iter ((sample_world [Response None ''42'' []])
            \<lparr>callback := throw_first (StdException ''callback failed'')\<rparr>) ''/message''
            (wait_url_base sample_watch ''/message'')
            (MAX_FAILURES, Run_start ''/message'' 0 sample_watch []) = Inr (MAX_FAILURES - 1, f1) \<and>
         prev_index (engine f1) = 0 \<and>
         watch_url f1 = ''http://127.0.0.1:2379/v2/keys/message?wait=true'')"
proof -
  let ?E = "(sample_world [Response None ''42'' []])
       \<lparr>callback := throw_first (StdException ''callback failed'')\<rparr>"
  let ?f = "Run_start ''/message'' 0 sample_watch [] :: (32, nat, nat list) frame"
  have h1: "resp_error (network ?E (length (performed (handle (engine ?f))))) = None"
    by (simp add: eval_defs)
  have h2: "Reply ?E (resp_body (network ?E (length (performed (handle (engine ?f)))))) = Inr 42"
    by (simp add: eval_defs)
  have h3: "fst (callback ?E (user ?f) 42) = Some (StdException ''callback failed'')"
    by (simp add: eval_defs)
  have h4: "derived_from_std_exception (StdException ''callback failed'')" by simp
  have r: "Reply ?E ''42'' = Inr 42" by (simp add: eval_defs)
  have cb: "fst (callback ?E [] 42) = Some (StdException ''callback failed'')"
    by (simp add: eval_defs)
  have u: "prev_index (engine ?f) = 0"
    "watch_url ?f = ''http://127.0.0.1:2379/v2/keys/message?wait=true''"
    by (simp_all add: eval_defs)
  from C10_callback_exception_counts_as_failure [OF h1 h2 h3 h4,
      of "wait_url_base sample_watch ''/message''" "''/message''" MAX_FAILURES]
  obtain f1 where "Run_iter ?E ''/message'' (wait_url_base sample_watch ''/message'')
        (MAX_FAILURES, ?f) = Inr (MAX_FAILURES - 1, f1)"
    "prev_index (engine f1) = 0"
    "watch_url f1 = ''http://127.0.0.1:2379/v2/keys/message?wait=true''"
    unfolding u by auto
  with h4 r cb show ?thesis by blast
qed

text \<open>
  The claim as stated fails for a callback that throws a \<^verbatim>\<open>ReplyException\<close> with
  error code 401: the recovery runs, and the turn ends with cursor 100 and a new URL.
\<close>

theorem C10_counterexample:
  "derived_from_std_exception (ReplyException 401 ''thrown by the callback'') \<and>
   resp_error (network ((sample_world [Response None ''42'' [],
        Response None ''42'' (header_block [''HTTP/1.1 200 OK'', ''X-Etcd-Index: 100''])])
        \<lparr>callback := throw_first (ReplyException 401 ''thrown by the callback'')\<rparr>) 0) = None \<and>
   Reply ((sample_world [Response None ''42'' [],
        Response None ''42'' (header_block [''HTTP/1.1 200 OK'', ''X-Etcd-Index: 100''])])
        \<lparr>callback := throw_first (ReplyException 401 ''thrown by the callback'')\<rparr>) ''42'' = Inr 42 \<and>
   fst (callback ((sample_world [Response None ''42'' [],
        Response None ''42'' (header_block [''HTTP/1.1 200 OK'', ''X-Etcd-Index: 100''])])
        \<lparr>callback := throw_first (ReplyException 401 ''thrown by the callback'')\<rparr>) [] 42) =
     Some (ReplyException 401 ''thrown by the callback'') \<and>
   Run_start ''/message'' 0 sample_watch [] =
     \<lparr>engine = \<lparr>prev_index = 0, url_prefix = ''http://127.0.0.1:2379/v2/keys'', handle = new_curl\<rparr>,
      watch_url = ''http://127.0.0.1:2379/v2/keys/message?wait=true'',
      user = [], calls = ([] :: nat list)\<rparr> \<and>
   Run_iter ((sample_world [Response None ''42'' [],
        Response None ''42'' (header_block [''HTTP/1.1 200 OK'', ''X-Etcd-Index: 100''])])
        \<lparr>callback := throw_first (ReplyException 401 ''thrown by the callback'')\<rparr>)
     ''/message'' (wait_url_base sample_watch ''/message'')
     (MAX_FAILURES, Run_start ''/message'' 0 sample_watch []) =
   Inr (4, \<lparr>engine = \<lparr>prev_index = 100, url_prefix = ''http://127.0.0.1:2379/v2/keys'',
              handle = \<lparr>enable_header = False, write_stream = ''42'',
                 header_stream = header_block [''HTTP/1.1 200 OK'', ''X-Etcd-Index: 100''],
                 performed = [''http://127.0.0.1:2379/v2/keys/message?wait=true'',
                              ''http://127.0.0.1:2379/v2/keys/message'']\<rparr>\<rparr>,
            watch_url = ''http://127.0.0.1:2379/v2/keys/message?wait=true&waitIndex=101'',
            user = [42, 42], calls = [42, 42]\<rparr>)"
  by (simp add: eval_defs)

end
